theory Spec2Isabelle
  imports Main "HOL-Library.Word"
begin

section \<open>Data model of the rate limiter configuration\<close>

text \<open>
  The Go package \<open>ratelimiter\<close> resolves a \<open>RateLimiterConfig\<close> from compiled-in
  defaults, the caller's configuration and the process environment. The embedding follows
  the source function by function.

  \<^item> \<open>int64\<close> fields are 64-bit words; the code only stores and copies them.
  \<^item> A pointer that may be \<open>nil\<close> is an \<open>option\<close>; dereferencing \<open>None\<close> is the
    runtime panic \<open>NilPointerDereference\<close>.
  \<^item> Rate configurations are held by value: the structs behind \<open>IP\<close>, \<open>Token\<close> and
    the entries of the custom-token map are taken to be separate objects.
  \<^item> A Go map is a partial function on its keys; the \<open>nil\<close> map, which reads as empty
    and panics on assignment, is the separate constructor \<open>NilMap\<close>.
  \<^item> The debug trace (\<open>DebugPrintfWithoutKey\<close>, \<open>json.Marshal\<close>) writes to the log
    only and is not part of the state.
\<close>

type_synonym int64 = "64 word"

datatype error =
    Panic string
  | NilPointerDereference
  | AssignmentToNilMap

definition bindE :: "error + 'a \<Rightarrow> ('a \<Rightarrow> error + 'b) \<Rightarrow> error + 'b" where
  "bindE r f = (case r of Inl e \<Rightarrow> Inl e | Inr x \<Rightarrow> f x)"

record RateLimiterRateConfig =
  MaxRequestsPerSecond :: int64
  BlockTimeMilliseconds :: int64

datatype tokenMap =
    NilMap
  | GoMap "string \<rightharpoonup> RateLimiterRateConfig option"

text \<open>Reading a map: a \<open>nil\<close> map has no keys.\<close>

fun entries :: "tokenMap \<Rightarrow> (string \<rightharpoonup> RateLimiterRateConfig option)" where
  "entries NilMap = Map.empty"
| "entries (GoMap m) = m"

text \<open>
  The storage adapters and response writers live in other packages; the resolver only
  constructs, stores and compares them. A value supplied by the caller is opaque.
\<close>

datatype RateLimitStorageAdapter =
    NewRateLimitMemoryStorageAdapter
  | NewRateLimitRedisStorageAdapter string string int64
  | CallerStorageAdapter nat

datatype RateLimiterResponseWriter =
    NewRateLimiterDefaultResponseWriter
  | CallerResponseWriter nat

record RateLimiterConfig =
  IP :: "RateLimiterRateConfig option"
  Token :: "RateLimiterRateConfig option"
  CustomTokens :: "tokenMap option"
  StorageAdapter :: "RateLimitStorageAdapter option"
  ResponseWriter :: "RateLimiterResponseWriter option"
  Debug :: bool
  DisableEnvs :: bool

definition envKeyIPMaxRequestsPerSecond :: string where
  "envKeyIPMaxRequestsPerSecond = ''RATE_LIMITER_IP_MAX_REQUESTS''"

definition envKeyIPBlockTimeMilliseconds :: string where
  "envKeyIPBlockTimeMilliseconds = ''RATE_LIMITER_IP_BLOCK_TIME''"

definition envKeyTokenMaxRequestsPerSecond :: string where
  "envKeyTokenMaxRequestsPerSecond = ''RATE_LIMITER_TOKEN_MAX_REQUESTS''"

definition envKeyTokenBlockTimeMilliseconds :: string where
  "envKeyTokenBlockTimeMilliseconds = ''RATE_LIMITER_TOKEN_BLOCK_TIME''"

definition envKeyDebug :: string where
  "envKeyDebug = ''RATE_LIMITER_DEBUG''"

definition envUseRedis :: string where
  "envUseRedis = ''RATE_LIMITER_USE_REDIS''"

definition envRedisAddress :: string where
  "envRedisAddress = ''RATE_LIMITER_REDIS_ADDRESS''"

definition envRedisPassword :: string where
  "envRedisPassword = ''RATE_LIMITER_REDIS_PASSWORD''"

definition envRedisDB :: string where
  "envRedisDB = ''RATE_LIMITER_REDIS_DB''"

section \<open>The process environment\<close>

text \<open>
  The environment is the list of \<open>NAME=value\<close> strings the process was started with.
  \<open>os.Environ\<close> returns its non-empty entries; \<open>os.LookupEnv\<close> finds the first entry
  whose text before the first \<open>=\<close> is the name asked for and returns the text after it.
\<close>

type_synonym environ = "string list"

definition Environ :: "environ \<Rightarrow> string list" where
  "Environ env = filter (\<lambda>e. e \<noteq> []) env"

text \<open>\<open>strings.SplitN(env, "=", 2)[0]\<close>: the text before the first \<open>=\<close>.\<close>

definition envPairKey :: "string \<Rightarrow> string" where
  "envPairKey env = takeWhile (\<lambda>c. c \<noteq> CHR ''='') env"

fun LookupEnv :: "environ \<Rightarrow> string \<Rightarrow> string option" where
  "LookupEnv [] key = None"
| "LookupEnv (e # es) key =
     (if CHR ''='' \<in> set e \<and> envPairKey e = key
      then Some (tl (dropWhile (\<lambda>c. c \<noteq> CHR ''='') e))
      else LookupEnv es key)"

text \<open>
  Modelled from the spec: the typed environment readers \<open>getStringEnv\<close>, \<open>getBoolEnv\<close>
  and \<open>getInt64Env\<close> are not among the source files. Section 4.2 of the specification
  gives their shape: each returns a (value, present) pair; an absent variable is not
  present; text that is not a recognised boolean literal, or not a base-10 signed integer,
  is not present; a variable set to the empty string is a present string. Which texts are
  boolean literals and how an integer text is read are not fixed there, so the two literal
  parsers are parameters of the model (\<open>parseBool\<close>, \<open>parseInt\<close>).
\<close>

definition getStringEnv :: "environ \<Rightarrow> string \<Rightarrow> string option" where
  "getStringEnv env key = LookupEnv env key"

definition getBoolEnv :: "(string \<Rightarrow> bool option) \<Rightarrow> environ \<Rightarrow> string \<Rightarrow> bool option" where
  "getBoolEnv parseBool env key =
     (case LookupEnv env key of None \<Rightarrow> None | Some s \<Rightarrow> parseBool s)"

definition getInt64Env :: "(string \<Rightarrow> int64 option) \<Rightarrow> environ \<Rightarrow> string \<Rightarrow> int64 option" where
  "getInt64Env parseInt env key =
     (case LookupEnv env key of None \<Rightarrow> None | Some s \<Rightarrow> parseInt s)"

text \<open>
  Modelled from the spec: one instance of the two literal parsers, used to run the model
  on concrete environments. \<open>boolLiteral\<close> recognises \<open>true\<close> and \<open>false\<close> in any
  letter case; \<open>intLiteral\<close> reads an optional sign and decimal digits, and rejects a
  number outside the \<open>int64\<close> range.
\<close>

definition lowerChar :: "char \<Rightarrow> char" where
  "lowerChar c =
     (let n = (of_char c :: nat) in if 65 \<le> n \<and> n \<le> 90 then char_of (n + 32) else c)"

definition boolLiteral :: "string \<Rightarrow> bool option" where
  "boolLiteral s =
     (if map lowerChar s = ''true'' then Some True
      else if map lowerChar s = ''false'' then Some False
      else None)"

definition digitValue :: "char \<Rightarrow> nat option" where
  "digitValue c =
     (let n = (of_char c :: nat) in if 48 \<le> n \<and> n \<le> 57 then Some (n - 48) else None)"

fun decimalDigits :: "string \<Rightarrow> nat \<Rightarrow> nat option" where
  "decimalDigits [] acc = Some acc"
| "decimalDigits (c # cs) acc =
     (case digitValue c of None \<Rightarrow> None | Some d \<Rightarrow> decimalDigits cs (10 * acc + d))"

definition intLiteral :: "string \<Rightarrow> int64 option" where
  "intLiteral s =
     (let neg = (s \<noteq> [] \<and> hd s = CHR ''-'');
          ds = (if s \<noteq> [] \<and> (hd s = CHR ''-'' \<or> hd s = CHR ''+'') then tl s else s)
      in if ds = [] then None
         else (case decimalDigits ds 0 of
                 None \<Rightarrow> None
               | Some n \<Rightarrow>
                   if neg then (if n \<le> 2 ^ 63 then Some (word_of_int (- int n)) else None)
                   else (if n < 2 ^ 63 then Some (word_of_nat n) else None)))"

section \<open>The resolver\<close>

definition GetRateLimiterRateConfigForToken ::
  "RateLimiterConfig \<Rightarrow> string
     \<Rightarrow> error + ((RateLimiterRateConfig option \<times> bool) \<times> RateLimiterConfig)" where
  "GetRateLimiterRateConfigForToken c token =
     (case CustomTokens c of
        None \<Rightarrow> Inl NilPointerDereference
      | Some m \<Rightarrow>
          (case entries m token of
             Some customTokenConfig \<Rightarrow> Inr ((customTokenConfig, True), c)
           | None \<Rightarrow> Inr ((Token c, False), c)))"

definition getDefaultConfiguration :: RateLimiterConfig where
  "getDefaultConfiguration =
     \<lparr> IP = Some \<lparr> MaxRequestsPerSecond = 100, BlockTimeMilliseconds = 1000 \<rparr>,
       Token = Some \<lparr> MaxRequestsPerSecond = 200, BlockTimeMilliseconds = 500 \<rparr>,
       CustomTokens = Some (GoMap Map.empty),
       StorageAdapter = Some NewRateLimitMemoryStorageAdapter,
       ResponseWriter = Some NewRateLimiterDefaultResponseWriter,
       Debug = False,
       DisableEnvs = False \<rparr>"

text \<open>
  The assignments \<open>config.IP.f = v\<close> and \<open>config.Token.f = v\<close> through the pointer.
  The struct is held by value here, so the write reaches this one field of the
  configuration; a struct that the caller shares between \<open>IP\<close>, \<open>Token\<close> or a map
  entry, where Go would show the write through every alias, is outside the model.
\<close>

definition storeIP ::
  "(RateLimiterRateConfig \<Rightarrow> RateLimiterRateConfig) \<Rightarrow> RateLimiterConfig
     \<Rightarrow> error + RateLimiterConfig" where
  "storeIP f config =
     (case IP config of
        None \<Rightarrow> Inl NilPointerDereference
      | Some r \<Rightarrow> Inr (config\<lparr>IP := Some (f r)\<rparr>))"

definition storeToken ::
  "(RateLimiterRateConfig \<Rightarrow> RateLimiterRateConfig) \<Rightarrow> RateLimiterConfig
     \<Rightarrow> error + RateLimiterConfig" where
  "storeToken f config =
     (case Token config of
        None \<Rightarrow> Inl NilPointerDereference
      | Some r \<Rightarrow> Inr (config\<lparr>Token := Some (f r)\<rparr>))"

definition configureIP ::
  "(string \<Rightarrow> int64 option) \<Rightarrow> environ \<Rightarrow> RateLimiterConfig \<Rightarrow> RateLimiterConfig
     \<Rightarrow> error + RateLimiterConfig" where
  "configureIP parseInt env config defaultConfiguration =
     (let config1 = (if IP config = None then config\<lparr>IP := IP defaultConfiguration\<rparr>
                     else config)
      in if \<not> DisableEnvs config1 then
           bindE (case getInt64Env parseInt env envKeyIPMaxRequestsPerSecond of
                    Some mrps \<Rightarrow> storeIP (\<lambda>r. r\<lparr>MaxRequestsPerSecond := mrps\<rparr>) config1
                  | None \<Rightarrow> Inr config1)
             (\<lambda>config2.
                case getInt64Env parseInt env envKeyIPBlockTimeMilliseconds of
                  Some bt \<Rightarrow> storeIP (\<lambda>r. r\<lparr>BlockTimeMilliseconds := bt\<rparr>) config2
                | None \<Rightarrow> Inr config2)
         else Inr config1)"

definition configureToken ::
  "(string \<Rightarrow> int64 option) \<Rightarrow> environ \<Rightarrow> RateLimiterConfig \<Rightarrow> RateLimiterConfig
     \<Rightarrow> error + RateLimiterConfig" where
  "configureToken parseInt env config defaultConfiguration =
     (let config1 = (if Token config = None then config\<lparr>Token := Token defaultConfiguration\<rparr>
                     else config)
      in if \<not> DisableEnvs config1 then
           bindE (case getInt64Env parseInt env envKeyTokenMaxRequestsPerSecond of
                    Some mrps \<Rightarrow> storeToken (\<lambda>r. r\<lparr>MaxRequestsPerSecond := mrps\<rparr>) config1
                  | None \<Rightarrow> Inr config1)
             (\<lambda>config2.
                case getInt64Env parseInt env envKeyTokenBlockTimeMilliseconds of
                  Some bt \<Rightarrow> storeToken (\<lambda>r. r\<lparr>BlockTimeMilliseconds := bt\<rparr>) config2
                | None \<Rightarrow> Inr config2)
         else Inr config1)"

subsection \<open>Custom tokens\<close>

text \<open>
  The regular expression \<open>^RATE_LIMITER_TOKEN_(.*)_(MAX_REQUESTS|BLOCK_TIME)$\<close>, with
  its first submatch. Both ends are anchored and the two suffixes end in different
  letters, so the submatch is what is left of the name between the prefix and the suffix;
  \<open>.\<close> matches every character but the line feed.
\<close>

fun stripPrefix :: "string \<Rightarrow> string \<Rightarrow> string option" where
  "stripPrefix [] s = Some s"
| "stripPrefix (p # ps) [] = None"
| "stripPrefix (p # ps) (c # cs) = (if p = c then stripPrefix ps cs else None)"

definition stripSuffix :: "string \<Rightarrow> string \<Rightarrow> string option" where
  "stripSuffix suf s = map_option rev (stripPrefix (rev suf) (rev s))"

definition dotStar :: "string \<Rightarrow> string option" where
  "dotStar t = (if CHR 0x0A \<in> set t then None else Some t)"

definition envKeyRegex :: "string \<Rightarrow> string option" where
  "envKeyRegex envKey =
     (case stripPrefix ''RATE_LIMITER_TOKEN_'' envKey of
        None \<Rightarrow> None
      | Some rest \<Rightarrow>
          (case stripSuffix ''_MAX_REQUESTS'' rest of
             Some t \<Rightarrow> dotStar t
           | None \<Rightarrow>
               (case stripSuffix ''_BLOCK_TIME'' rest of
                  Some t \<Rightarrow> dotStar t
                | None \<Rightarrow> None)))"

text \<open>
  The scan of \<open>getCustomTokenList\<close>: \<open>foundTokens\<close> is the set of identifiers seen so
  far, kept as a list without repetition. The order in which Go hands the keys of that
  set back is not fixed; the model returns them as collected.
\<close>

fun foundTokens :: "string list \<Rightarrow> string list \<Rightarrow> string list" where
  "foundTokens [] found = found"
| "foundTokens (env # envs) found =
     (case envKeyRegex (envPairKey env) of
        Some t \<Rightarrow> foundTokens envs (List.insert t found)
      | None \<Rightarrow> foundTokens envs found)"

definition getCustomTokenList :: "environ \<Rightarrow> string list" where
  "getCustomTokenList env = foundTokens (Environ env) []"

definition configureCustomToken ::
  "(string \<Rightarrow> int64 option) \<Rightarrow> environ \<Rightarrow> RateLimiterConfig \<Rightarrow> RateLimiterConfig
     \<Rightarrow> string \<Rightarrow> error + RateLimiterConfig" where
  "configureCustomToken parseInt env config defaultConfiguration customToken =
     (let maxRequestsPerSecondEnvKey = ''RATE_LIMITER_TOKEN_'' @ customToken @ ''_MAX_REQUESTS'';
          blockTimeMillisecondEnvKey = ''RATE_LIMITER_TOKEN_'' @ customToken @ ''_BLOCK_TIME''
      in bindE (case getInt64Env parseInt env maxRequestsPerSecondEnvKey of
                  Some v \<Rightarrow> Inr v
                | None \<Rightarrow>
                    (case Token config of
                       None \<Rightarrow> Inl NilPointerDereference
                     | Some t \<Rightarrow> Inr (MaxRequestsPerSecond t)))
           (\<lambda>maxRequestsPerSecond.
              bindE (case getInt64Env parseInt env blockTimeMillisecondEnvKey of
                       Some v \<Rightarrow> Inr v
                     | None \<Rightarrow>
                         (case Token config of
                            None \<Rightarrow> Inl NilPointerDereference
                          | Some t \<Rightarrow> Inr (BlockTimeMilliseconds t)))
                (\<lambda>blockTimeMilliseconds.
                   case CustomTokens config of
                     None \<Rightarrow> Inl NilPointerDereference
                   | Some NilMap \<Rightarrow> Inl AssignmentToNilMap
                   | Some (GoMap m) \<Rightarrow>
                       Inr (config\<lparr>CustomTokens :=
                              Some (GoMap (m(customToken \<mapsto>
                                Some \<lparr> MaxRequestsPerSecond = maxRequestsPerSecond,
                                       BlockTimeMilliseconds = blockTimeMilliseconds \<rparr>)))\<rparr>))))"

text \<open>
  The first loop of \<open>configureCustomTokens\<close> visits every key of the map and overwrites
  an entry whose value is \<open>nil\<close> with \<open>config.Token\<close>. Each visit touches its own key
  only, so the loop is the pointwise update of the map.
\<close>

fun completeEntries :: "tokenMap \<Rightarrow> RateLimiterRateConfig option \<Rightarrow> tokenMap" where
  "completeEntries NilMap token = NilMap"
| "completeEntries (GoMap m) token =
     GoMap (\<lambda>key. case m key of Some None \<Rightarrow> Some token | v \<Rightarrow> v)"

text \<open>The second loop: one call of \<open>configureCustomToken\<close> per discovered identifier.\<close>

fun configureEach ::
  "(string \<Rightarrow> int64 option) \<Rightarrow> environ \<Rightarrow> RateLimiterConfig \<Rightarrow> string list
     \<Rightarrow> RateLimiterConfig \<Rightarrow> error + RateLimiterConfig" where
  "configureEach parseInt env defaultConfiguration [] config = Inr config"
| "configureEach parseInt env defaultConfiguration (customToken # customTokens) config =
     bindE (configureCustomToken parseInt env config defaultConfiguration customToken)
       (configureEach parseInt env defaultConfiguration customTokens)"

definition configureCustomTokens ::
  "(string \<Rightarrow> int64 option) \<Rightarrow> environ \<Rightarrow> RateLimiterConfig \<Rightarrow> RateLimiterConfig
     \<Rightarrow> error + RateLimiterConfig" where
  "configureCustomTokens parseInt env config defaultConfiguration =
     (let config1 = (if CustomTokens config = None
                     then config\<lparr>CustomTokens := CustomTokens defaultConfiguration\<rparr>
                     else config)
      in case CustomTokens config1 of
           None \<Rightarrow> Inl NilPointerDereference
         | Some m \<Rightarrow>
             configureEach parseInt env defaultConfiguration (getCustomTokenList env)
               (config1\<lparr>CustomTokens := Some (completeEntries m (Token config1))\<rparr>))"

subsection \<open>Storage adapter and response writer\<close>

definition configureRedisStorageAdapter ::
  "(string \<Rightarrow> int64 option) \<Rightarrow> environ \<Rightarrow> RateLimiterConfig \<Rightarrow> error + RateLimiterConfig" where
  "configureRedisStorageAdapter parseInt env config =
     (case getStringEnv env envRedisAddress of
        None \<Rightarrow>
          Inl (Panic (envRedisAddress
                 @ '' env is required when using redis adapter with env configuration''))
      | Some redisAddress \<Rightarrow>
          (let redisPassword = (case getStringEnv env envRedisPassword of
                                  Some p \<Rightarrow> p | None \<Rightarrow> []);
               redisDB = (case getInt64Env parseInt env envRedisDB of
                            Some d \<Rightarrow> d | None \<Rightarrow> 0)
           in Inr (config\<lparr>StorageAdapter :=
                     Some (NewRateLimitRedisStorageAdapter redisAddress redisPassword redisDB)\<rparr>)))"

text \<open>
  Without the redis flag the two remaining branches of \<open>configureStorageAdapter\<close>, and
  both branches of \<open>configureResponseWriter\<close>, differ in the trace line only.
\<close>

definition configureStorageAdapter ::
  "(string \<Rightarrow> bool option) \<Rightarrow> (string \<Rightarrow> int64 option) \<Rightarrow> environ \<Rightarrow> RateLimiterConfig
     \<Rightarrow> RateLimiterConfig \<Rightarrow> error + RateLimiterConfig" where
  "configureStorageAdapter parseBool parseInt env config defaultConfiguration =
     (let config1 = (if StorageAdapter config = None
                     then config\<lparr>StorageAdapter := StorageAdapter defaultConfiguration\<rparr>
                     else config)
      in if getBoolEnv parseBool env envUseRedis = Some True
         then configureRedisStorageAdapter parseInt env config1
         else if StorageAdapter config1 \<noteq> StorageAdapter defaultConfiguration
         then Inr config1
         else Inr config1)"

definition configureResponseWriter ::
  "RateLimiterConfig \<Rightarrow> RateLimiterConfig \<Rightarrow> RateLimiterConfig" where
  "configureResponseWriter config defaultConfiguration =
     (let config1 = (if ResponseWriter config = None
                     then config\<lparr>ResponseWriter := ResponseWriter defaultConfiguration\<rparr>
                     else config)
      in if ResponseWriter config1 \<noteq> ResponseWriter defaultConfiguration
         then config1
         else config1)"

subsection \<open>The resolution call\<close>

definition setConfiguration ::
  "(string \<Rightarrow> bool option) \<Rightarrow> (string \<Rightarrow> int64 option) \<Rightarrow> environ
     \<Rightarrow> RateLimiterConfig option \<Rightarrow> error + RateLimiterConfig" where
  "setConfiguration parseBool parseInt env config =
     (let defaultConfiguration = getDefaultConfiguration;
          config0 = (case config of None \<Rightarrow> defaultConfiguration | Some c \<Rightarrow> c);
          config1 = (if \<not> DisableEnvs config0
                     then (case getBoolEnv parseBool env envKeyDebug of
                             Some debug \<Rightarrow> config0\<lparr>Debug := debug\<rparr>
                           | None \<Rightarrow> config0)
                     else config0)
      in bindE (configureIP parseInt env config1 defaultConfiguration)
           (\<lambda>config2.
              bindE (configureToken parseInt env config2 defaultConfiguration)
                (\<lambda>config3.
                   bindE (configureCustomTokens parseInt env config3 defaultConfiguration)
                     (\<lambda>config4.
                        bindE (configureStorageAdapter parseBool parseInt env config4
                                 defaultConfiguration)
                          (\<lambda>config5.
                             Inr (configureResponseWriter config5 defaultConfiguration))))))"

section \<open>The resolver in closed form\<close>

text \<open>
  What each stage of \<open>setConfiguration\<close> leaves in its field, written without the
  intermediate configurations. \<open>setConfiguration_resolved\<close> below proves that the source
  function computes exactly \<open>resolved\<close>; the properties of the resolver are read off it.
\<close>

definition envOr :: "int64 option \<Rightarrow> int64 \<Rightarrow> int64" where
  "envOr v d = (case v of Some x \<Rightarrow> x | None \<Rightarrow> d)"

definition overrideRate ::
  "(string \<Rightarrow> int64 option) \<Rightarrow> environ \<Rightarrow> string \<Rightarrow> string \<Rightarrow> RateLimiterRateConfig
     \<Rightarrow> RateLimiterRateConfig" where
  "overrideRate parseInt env maxKey blockKey r =
     \<lparr> MaxRequestsPerSecond = envOr (getInt64Env parseInt env maxKey) (MaxRequestsPerSecond r),
       BlockTimeMilliseconds = envOr (getInt64Env parseInt env blockKey) (BlockTimeMilliseconds r) \<rparr>"

definition resolvedRate ::
  "(string \<Rightarrow> int64 option) \<Rightarrow> environ \<Rightarrow> string \<Rightarrow> string \<Rightarrow> bool
     \<Rightarrow> RateLimiterRateConfig option \<Rightarrow> RateLimiterRateConfig \<Rightarrow> RateLimiterRateConfig" where
  "resolvedRate parseInt env maxKey blockKey disabled given dflt =
     (let r = (case given of None \<Rightarrow> dflt | Some r \<Rightarrow> r)
      in if disabled then r else overrideRate parseInt env maxKey blockKey r)"

definition customTokenRate ::
  "(string \<Rightarrow> int64 option) \<Rightarrow> environ \<Rightarrow> RateLimiterRateConfig \<Rightarrow> string
     \<Rightarrow> RateLimiterRateConfig" where
  "customTokenRate parseInt env token customToken =
     overrideRate parseInt env (''RATE_LIMITER_TOKEN_'' @ customToken @ ''_MAX_REQUESTS'')
       (''RATE_LIMITER_TOKEN_'' @ customToken @ ''_BLOCK_TIME'') token"

definition resolvedCustomTokens ::
  "(string \<Rightarrow> int64 option) \<Rightarrow> environ \<Rightarrow> tokenMap option \<Rightarrow> RateLimiterRateConfig
     \<Rightarrow> error + tokenMap" where
  "resolvedCustomTokens parseInt env given token =
     (case completeEntries (case given of None \<Rightarrow> GoMap Map.empty | Some m \<Rightarrow> m) (Some token) of
        NilMap \<Rightarrow> if getCustomTokenList env = [] then Inr NilMap else Inl AssignmentToNilMap
      | GoMap m \<Rightarrow>
          Inr (GoMap (\<lambda>key. if key \<in> set (getCustomTokenList env)
                             then Some (Some (customTokenRate parseInt env token key))
                             else m key)))"

definition resolvedStorageAdapter ::
  "(string \<Rightarrow> bool option) \<Rightarrow> (string \<Rightarrow> int64 option) \<Rightarrow> environ
     \<Rightarrow> RateLimitStorageAdapter option \<Rightarrow> error + RateLimitStorageAdapter" where
  "resolvedStorageAdapter parseBool parseInt env given =
     (if getBoolEnv parseBool env envUseRedis = Some True then
        (case getStringEnv env envRedisAddress of
           None \<Rightarrow>
             Inl (Panic (envRedisAddress
                    @ '' env is required when using redis adapter with env configuration''))
         | Some redisAddress \<Rightarrow>
             Inr (NewRateLimitRedisStorageAdapter redisAddress
                    (case getStringEnv env envRedisPassword of Some p \<Rightarrow> p | None \<Rightarrow> [])
                    (envOr (getInt64Env parseInt env envRedisDB) 0)))
      else Inr (case given of None \<Rightarrow> NewRateLimitMemoryStorageAdapter | Some a \<Rightarrow> a))"

definition resolvedDebug ::
  "(string \<Rightarrow> bool option) \<Rightarrow> environ \<Rightarrow> RateLimiterConfig \<Rightarrow> bool" where
  "resolvedDebug parseBool env config =
     (if DisableEnvs config then Debug config
      else (case getBoolEnv parseBool env envKeyDebug of Some d \<Rightarrow> d | None \<Rightarrow> Debug config))"

definition resolvedIP ::
  "(string \<Rightarrow> int64 option) \<Rightarrow> environ \<Rightarrow> RateLimiterConfig \<Rightarrow> RateLimiterRateConfig" where
  "resolvedIP parseInt env config =
     resolvedRate parseInt env envKeyIPMaxRequestsPerSecond envKeyIPBlockTimeMilliseconds
       (DisableEnvs config) (IP config)
       \<lparr> MaxRequestsPerSecond = 100, BlockTimeMilliseconds = 1000 \<rparr>"

definition resolvedToken ::
  "(string \<Rightarrow> int64 option) \<Rightarrow> environ \<Rightarrow> RateLimiterConfig \<Rightarrow> RateLimiterRateConfig" where
  "resolvedToken parseInt env config =
     resolvedRate parseInt env envKeyTokenMaxRequestsPerSecond envKeyTokenBlockTimeMilliseconds
       (DisableEnvs config) (Token config)
       \<lparr> MaxRequestsPerSecond = 200, BlockTimeMilliseconds = 500 \<rparr>"

definition resolved ::
  "(string \<Rightarrow> bool option) \<Rightarrow> (string \<Rightarrow> int64 option) \<Rightarrow> environ
     \<Rightarrow> RateLimiterConfig \<Rightarrow> error + RateLimiterConfig" where
  "resolved parseBool parseInt env config =
     bindE (resolvedCustomTokens parseInt env (CustomTokens config) (resolvedToken parseInt env config))
       (\<lambda>customTokens.
          bindE (resolvedStorageAdapter parseBool parseInt env (StorageAdapter config))
            (\<lambda>storageAdapter.
               Inr \<lparr> IP = Some (resolvedIP parseInt env config),
                     Token = Some (resolvedToken parseInt env config),
                     CustomTokens = Some customTokens,
                     StorageAdapter = Some storageAdapter,
                     ResponseWriter = Some (case ResponseWriter config of
                                              None \<Rightarrow> NewRateLimiterDefaultResponseWriter
                                            | Some w \<Rightarrow> w),
                     Debug = resolvedDebug parseBool env config,
                     DisableEnvs = DisableEnvs config \<rparr>))"

section \<open>The stages of the resolver\<close>

lemma bindE_Inl [simp]: "bindE (Inl e) f = Inl e"
  by (simp add: bindE_def)

lemma bindE_Inr [simp]: "bindE (Inr x) f = f x"
  by (simp add: bindE_def)

lemma configureIP_default:
  "configureIP parseInt env config getDefaultConfiguration =
     Inr (config\<lparr>IP := Some (resolvedRate parseInt env envKeyIPMaxRequestsPerSecond
            envKeyIPBlockTimeMilliseconds (DisableEnvs config) (IP config)
            \<lparr> MaxRequestsPerSecond = 100, BlockTimeMilliseconds = 1000 \<rparr>)\<rparr>)"
  by (cases "IP config")
     (auto simp: configureIP_def getDefaultConfiguration_def storeIP_def resolvedRate_def
        overrideRate_def envOr_def Let_def split: option.splits)

lemma configureToken_default:
  "configureToken parseInt env config getDefaultConfiguration =
     Inr (config\<lparr>Token := Some (resolvedRate parseInt env envKeyTokenMaxRequestsPerSecond
            envKeyTokenBlockTimeMilliseconds (DisableEnvs config) (Token config)
            \<lparr> MaxRequestsPerSecond = 200, BlockTimeMilliseconds = 500 \<rparr>)\<rparr>)"
  by (cases "Token config")
     (auto simp: configureToken_def getDefaultConfiguration_def storeToken_def resolvedRate_def
        overrideRate_def envOr_def Let_def split: option.splits)

lemma configureCustomToken_GoMap:
  assumes "Token config = Some t" and "CustomTokens config = Some (GoMap m)"
  shows "configureCustomToken parseInt env config d customToken =
           Inr (config\<lparr>CustomTokens :=
                  Some (GoMap (m(customToken \<mapsto> Some (customTokenRate parseInt env t customToken))))\<rparr>)"
  using assms
  by (auto simp: configureCustomToken_def customTokenRate_def overrideRate_def envOr_def Let_def
        split: option.splits)

lemma configureCustomToken_NilMap:
  assumes "Token config = Some t" and "CustomTokens config = Some NilMap"
  shows "configureCustomToken parseInt env config d customToken = Inl AssignmentToNilMap"
  using assms
  by (auto simp: configureCustomToken_def Let_def split: option.splits)

lemma configureEach_GoMap:
  assumes "Token config = Some t" and "CustomTokens config = Some (GoMap m)"
  shows "configureEach parseInt env d customTokens config =
           Inr (config\<lparr>CustomTokens :=
                  Some (GoMap (\<lambda>key. if key \<in> set customTokens
                                      then Some (Some (customTokenRate parseInt env t key))
                                      else m key))\<rparr>)"
  using assms
proof (induction customTokens arbitrary: config m)
  case Nil
  then show ?case by simp
next
  case (Cons a customTokens)
  let ?m = "m(a \<mapsto> Some (customTokenRate parseInt env t a))"
  let ?config = "config\<lparr>CustomTokens := Some (GoMap ?m)\<rparr>"
  have step: "configureCustomToken parseInt env config d a = Inr ?config"
    using Cons.prems by (rule configureCustomToken_GoMap)
  have p1: "Token ?config = Some t"
    using Cons.prems by simp
  have p2: "CustomTokens ?config = Some (GoMap ?m)"
    by simp
  show ?case
    by (simp only: configureEach.simps step bindE_Inr Cons.IH [OF p1 p2])
       (simp add: fun_eq_iff)
qed

lemma configureEach_NilMap:
  assumes "Token config = Some t" and "CustomTokens config = Some NilMap"
  shows "configureEach parseInt env d customTokens config =
           (if customTokens = [] then Inr config else Inl AssignmentToNilMap)"
  using assms by (cases customTokens) (simp_all add: configureCustomToken_NilMap)

lemma configureCustomTokens_default:
  assumes "Token config = Some t"
  shows "configureCustomTokens parseInt env config getDefaultConfiguration =
           bindE (resolvedCustomTokens parseInt env (CustomTokens config) t)
             (\<lambda>customTokens. Inr (config\<lparr>CustomTokens := Some customTokens\<rparr>))"
proof (cases "completeEntries (case CustomTokens config of None \<Rightarrow> GoMap Map.empty | Some m \<Rightarrow> m) (Some t)")
  case NilMap
  then have given: "CustomTokens config = Some NilMap"
    by (auto split: option.splits elim: completeEntries.elims)
  show ?thesis
    using assms given
    by (simp add: configureCustomTokens_def resolvedCustomTokens_def
          configureEach_NilMap [where t = t])
next
  case (GoMap m)
  let ?config = "config\<lparr>CustomTokens := Some (GoMap m)\<rparr>"
  have p1: "Token ?config = Some t"
    using assms by simp
  have p2: "CustomTokens ?config = Some (GoMap m)"
    by simp
  have loop: "configureEach parseInt env getDefaultConfiguration (getCustomTokenList env) ?config
      = Inr (?config\<lparr>CustomTokens := Some (GoMap (\<lambda>key. if key \<in> set (getCustomTokenList env)
                             then Some (Some (customTokenRate parseInt env t key))
                             else m key))\<rparr>)"
    by (rule configureEach_GoMap [OF p1 p2])
  have start: "configureCustomTokens parseInt env config getDefaultConfiguration
      = configureEach parseInt env getDefaultConfiguration (getCustomTokenList env)
          (config\<lparr>CustomTokens := Some (completeEntries
             (case CustomTokens config of None \<Rightarrow> GoMap Map.empty | Some m \<Rightarrow> m) (Some t))\<rparr>)"
    using assms
    by (cases "CustomTokens config")
       (simp_all add: configureCustomTokens_def getDefaultConfiguration_def)
  show ?thesis
    by (simp only: start GoMap loop) (simp add: resolvedCustomTokens_def GoMap)
qed

lemma configureStorageAdapter_default:
  "configureStorageAdapter parseBool parseInt env config getDefaultConfiguration =
     bindE (resolvedStorageAdapter parseBool parseInt env (StorageAdapter config))
       (\<lambda>storageAdapter. Inr (config\<lparr>StorageAdapter := Some storageAdapter\<rparr>))"
  by (cases "StorageAdapter config")
     (auto simp: configureStorageAdapter_def configureRedisStorageAdapter_def
        resolvedStorageAdapter_def getDefaultConfiguration_def envOr_def Let_def
        split: option.splits)

lemma configureResponseWriter_default:
  "configureResponseWriter config getDefaultConfiguration =
     config\<lparr>ResponseWriter := Some (case ResponseWriter config of
                                         None \<Rightarrow> NewRateLimiterDefaultResponseWriter
                                       | Some w \<Rightarrow> w)\<rparr>"
  by (cases "ResponseWriter config")
     (simp_all add: configureResponseWriter_def getDefaultConfiguration_def)

lemma setConfiguration_resolved:
  "setConfiguration parseBool parseInt env config =
     resolved parseBool parseInt env
       (case config of None \<Rightarrow> getDefaultConfiguration | Some c \<Rightarrow> c)"
proof -
  define c where "c = (case config of None \<Rightarrow> getDefaultConfiguration | Some c \<Rightarrow> c)"
  define c1 where "c1 = c\<lparr>Debug := resolvedDebug parseBool env c\<rparr>"
  have c1: "(if \<not> DisableEnvs c
             then (case getBoolEnv parseBool env envKeyDebug of
                     Some debug \<Rightarrow> c\<lparr>Debug := debug\<rparr> | None \<Rightarrow> c)
             else c) = c1"
    by (simp add: c1_def resolvedDebug_def split: option.splits)
  define c2 where "c2 = c1\<lparr>IP := Some (resolvedIP parseInt env c)\<rparr>"
  have c2: "configureIP parseInt env c1 getDefaultConfiguration = Inr c2"
    by (simp add: configureIP_default c2_def c1_def resolvedIP_def)
  define c3 where "c3 = c2\<lparr>Token := Some (resolvedToken parseInt env c)\<rparr>"
  have c3: "configureToken parseInt env c2 getDefaultConfiguration = Inr c3"
    by (simp add: configureToken_default c3_def c2_def c1_def resolvedToken_def)
  have tok: "Token c3 = Some (resolvedToken parseInt env c)"
    by (simp add: c3_def)
  have c4: "configureCustomTokens parseInt env c3 getDefaultConfiguration =
              bindE (resolvedCustomTokens parseInt env (CustomTokens c) (resolvedToken parseInt env c))
                (\<lambda>customTokens. Inr (c3\<lparr>CustomTokens := Some customTokens\<rparr>))"
    by (simp add: configureCustomTokens_default [OF tok]) (simp add: c3_def c2_def c1_def)
  have "setConfiguration parseBool parseInt env config =
          bindE (configureIP parseInt env c1 getDefaultConfiguration)
           (\<lambda>config2.
              bindE (configureToken parseInt env config2 getDefaultConfiguration)
                (\<lambda>config3.
                   bindE (configureCustomTokens parseInt env config3 getDefaultConfiguration)
                     (\<lambda>config4.
                        bindE (configureStorageAdapter parseBool parseInt env config4
                                 getDefaultConfiguration)
                          (\<lambda>config5.
                             Inr (configureResponseWriter config5 getDefaultConfiguration)))))"
    unfolding setConfiguration_def Let_def c_def [symmetric] c1 ..
  also have "\<dots> = resolved parseBool parseInt env c"
    unfolding c2 bindE_Inr c3 c4
    by (cases "resolvedCustomTokens parseInt env (CustomTokens c) (resolvedToken parseInt env c)";
        cases "resolvedStorageAdapter parseBool parseInt env (StorageAdapter c)")
       (simp_all add: resolved_def configureStorageAdapter_default
          configureResponseWriter_default c3_def c2_def c1_def)
  finally show ?thesis
    by (simp add: c_def)
qed

lemma resolved_Inr_fields:
  assumes "resolved parseBool parseInt env c = Inr r"
  shows "IP r = Some (resolvedIP parseInt env c)"
    and "Token r = Some (resolvedToken parseInt env c)"
    and "\<exists>customTokens. resolvedCustomTokens parseInt env (CustomTokens c) (resolvedToken parseInt env c) = Inr customTokens
           \<and> CustomTokens r = Some customTokens"
    and "\<exists>storageAdapter. resolvedStorageAdapter parseBool parseInt env (StorageAdapter c) = Inr storageAdapter
           \<and> StorageAdapter r = Some storageAdapter"
    and "ResponseWriter r = Some (case ResponseWriter c of
                                              None \<Rightarrow> NewRateLimiterDefaultResponseWriter
                                            | Some w \<Rightarrow> w)"
    and "Debug r = resolvedDebug parseBool env c"
    and "DisableEnvs r = DisableEnvs c"
  using assms
  by (auto simp: resolved_def bindE_def split: sum.splits)

lemma resolvedCustomTokens_Inl:
  "resolvedCustomTokens parseInt env given token = Inl e \<longleftrightarrow>
     e = AssignmentToNilMap \<and> given = Some NilMap \<and> getCustomTokenList env \<noteq> []"
  by (cases given; cases "the given")
     (auto simp: resolvedCustomTokens_def)

lemma resolvedStorageAdapter_Inl:
  "resolvedStorageAdapter parseBool parseInt env given = Inl e \<longleftrightarrow>
     e = Panic (envRedisAddress
                    @ '' env is required when using redis adapter with env configuration'')
     \<and> getBoolEnv parseBool env envUseRedis = Some True
     \<and> getStringEnv env envRedisAddress = None"
  by (auto simp: resolvedStorageAdapter_def split: option.splits)

lemma resolved_Inl:
  "resolved parseBool parseInt env c = Inl e \<longleftrightarrow>
     resolvedCustomTokens parseInt env (CustomTokens c) (resolvedToken parseInt env c) = Inl e
     \<or> ((\<forall>e'. resolvedCustomTokens parseInt env (CustomTokens c)
                (resolvedToken parseInt env c) \<noteq> Inl e')
         \<and> resolvedStorageAdapter parseBool parseInt env (StorageAdapter c) = Inl e)"
  by (cases "resolvedCustomTokens parseInt env (CustomTokens c) (resolvedToken parseInt env c)";
      cases "resolvedStorageAdapter parseBool parseInt env (StorageAdapter c)")
     (simp_all add: resolved_def)

lemma resolved_returns_iff:
  "(\<exists>r. resolved parseBool parseInt env c = Inr r) \<longleftrightarrow>
     \<not> (CustomTokens c = Some NilMap \<and> getCustomTokenList env \<noteq> [])
     \<and> \<not> (getBoolEnv parseBool env envUseRedis = Some True
            \<and> getStringEnv env envRedisAddress = None)"
proof -
  have "(\<exists>r. resolved parseBool parseInt env c = Inr r) \<longleftrightarrow>
          (\<forall>e. resolved parseBool parseInt env c \<noteq> Inl e)"
    by (cases "resolved parseBool parseInt env c") simp_all
  also have "\<dots> \<longleftrightarrow>
          (\<forall>e. resolvedCustomTokens parseInt env (CustomTokens c)
                 (resolvedToken parseInt env c) \<noteq> Inl e)
          \<and> (\<forall>e. resolvedStorageAdapter parseBool parseInt env (StorageAdapter c) \<noteq> Inl e)"
    unfolding resolved_Inl by blast
  also have "\<dots> \<longleftrightarrow> \<not> (CustomTokens c = Some NilMap \<and> getCustomTokenList env \<noteq> [])
     \<and> \<not> (getBoolEnv parseBool env envUseRedis = Some True
            \<and> getStringEnv env envRedisAddress = None)"
    unfolding resolvedCustomTokens_Inl resolvedStorageAdapter_Inl by simp
  finally show ?thesis .
qed

lemma caller_NilMap:
  "CustomTokens (case config of None \<Rightarrow> getDefaultConfiguration | Some c \<Rightarrow> c) = Some NilMap
     \<longleftrightarrow> (\<exists>c. config = Some c \<and> CustomTokens c = Some NilMap)"
  by (cases config) (simp_all add: getDefaultConfiguration_def)

lemma setConfiguration_returns_iff:
  "(\<exists>r. setConfiguration parseBool parseInt env config = Inr r) \<longleftrightarrow>
     \<not> ((\<exists>c. config = Some c \<and> CustomTokens c = Some NilMap) \<and> getCustomTokenList env \<noteq> [])
     \<and> \<not> (getBoolEnv parseBool env envUseRedis = Some True
            \<and> getStringEnv env envRedisAddress = None)"
  unfolding setConfiguration_resolved resolved_returns_iff caller_NilMap ..

lemma stripPrefix_iff: "stripPrefix p s = Some r \<longleftrightarrow> s = p @ r"
  by (induction p s rule: stripPrefix.induct) auto

lemma stripSuffix_iff: "stripSuffix suf s = Some r \<longleftrightarrow> s = r @ suf"
proof -
  have "stripSuffix suf s = Some r \<longleftrightarrow> (\<exists>q. rev s = rev suf @ q \<and> r = rev q)"
    by (auto simp: stripSuffix_def stripPrefix_iff)
  also have "\<dots> \<longleftrightarrow> rev s = rev suf @ rev r"
    by (metis rev_rev_ident)
  also have "\<dots> \<longleftrightarrow> s = r @ suf"
    by (metis rev_append rev_rev_ident)
  finally show ?thesis .
qed

lemma stripSuffix_None: "stripSuffix suf s = None \<longleftrightarrow> (\<forall>r. s \<noteq> r @ suf)"
  using stripSuffix_iff [of suf s] by (cases "stripSuffix suf s") auto

lemma suffixes_differ:
  "t @ ''_MAX_REQUESTS'' \<noteq> t' @ ''_BLOCK_TIME''"
proof
  assume "t @ ''_MAX_REQUESTS'' = t' @ ''_BLOCK_TIME''"
  then have "last (t @ ''_MAX_REQUESTS'') = last (t' @ ''_BLOCK_TIME'')"
    by simp
  then show False
    by simp
qed

lemma envKeyRegex_iff:
  "envKeyRegex envKey = Some t \<longleftrightarrow>
     CHR 0x0A \<notin> set t
     \<and> (envKey = ''RATE_LIMITER_TOKEN_'' @ t @ ''_MAX_REQUESTS''
        \<or> envKey = ''RATE_LIMITER_TOKEN_'' @ t @ ''_BLOCK_TIME'')"
proof (cases "stripPrefix ''RATE_LIMITER_TOKEN_'' envKey")
  case None
  then have "\<And>r. envKey \<noteq> ''RATE_LIMITER_TOKEN_'' @ r"
    using stripPrefix_iff [of "''RATE_LIMITER_TOKEN_''" envKey] by auto
  then show ?thesis
    using None by (auto simp: envKeyRegex_def)
next
  case (Some rest)
  then have envKey: "envKey = ''RATE_LIMITER_TOKEN_'' @ rest"
    by (simp add: stripPrefix_iff)
  show ?thesis
  proof (cases "stripSuffix ''_MAX_REQUESTS'' rest")
    case max: (Some u)
    then have rest: "rest = u @ ''_MAX_REQUESTS''"
      by (simp add: stripSuffix_iff)
    show ?thesis
      using Some max suffixes_differ [of u t]
      by (auto simp: envKeyRegex_def dotStar_def envKey rest)
  next
    case noMax: None
    show ?thesis
    proof (cases "stripSuffix ''_BLOCK_TIME'' rest")
      case None
      have noMax': "\<And>r. rest \<noteq> r @ ''_MAX_REQUESTS''"
        using noMax by (simp add: stripSuffix_None)
      have noBlock': "\<And>r. rest \<noteq> r @ ''_BLOCK_TIME''"
        using None by (simp add: stripSuffix_None)
      have "envKeyRegex envKey = None"
        using Some noMax None by (simp add: envKeyRegex_def)
      then show ?thesis
        using noMax' noBlock' by (auto simp: envKey)
    next
      case block: (Some u)
      then have rest: "rest = u @ ''_BLOCK_TIME''"
        by (simp add: stripSuffix_iff)
      show ?thesis
        using Some noMax block suffixes_differ [of t u]
        by (auto simp: envKeyRegex_def dotStar_def envKey rest)
    qed
  qed
qed

lemma set_foundTokens:
  "set (foundTokens envs found) =
     set found \<union> {t. \<exists>e \<in> set envs. envKeyRegex (envPairKey e) = Some t}"
  by (induction envs arbitrary: found) (auto split: option.splits)

lemma distinct_foundTokens:
  "distinct found \<Longrightarrow> distinct (foundTokens envs found)"
  by (induction envs arbitrary: found) (auto split: option.splits)

lemma envKeyRegex_empty_name: "envKeyRegex (envPairKey []) = None"
  by (simp add: envPairKey_def envKeyRegex_def)

lemma set_getCustomTokenList:
  "set (getCustomTokenList env) = {t. \<exists>e \<in> set env. envKeyRegex (envPairKey e) = Some t}"
proof -
  have "\<And>e t. envKeyRegex (envPairKey e) = Some t \<Longrightarrow> e \<noteq> []"
    using envKeyRegex_empty_name by auto
  then show ?thesis
    by (auto simp: getCustomTokenList_def set_foundTokens Environ_def)
qed

lemma distinct_getCustomTokenList: "distinct (getCustomTokenList env)"
  by (simp add: getCustomTokenList_def distinct_foundTokens)

lemma LookupEnv_Some_entry:
  "LookupEnv env key = Some v \<Longrightarrow> \<exists>e \<in> set env. CHR ''='' \<in> set e \<and> envPairKey e = key"
  by (induction env) (auto split: if_splits)

lemma LookupEnv_None_iff:
  "LookupEnv env key = None \<longleftrightarrow> (\<forall>e \<in> set env. CHR ''='' \<in> set e \<longrightarrow> envPairKey e \<noteq> key)"
  by (induction env) auto

lemma setConfiguration_Inr_fields:
  assumes "setConfiguration parseBool parseInt env config = Inr r"
    and "c = (case config of None \<Rightarrow> getDefaultConfiguration | Some c \<Rightarrow> c)"
  shows "IP r = Some (resolvedIP parseInt env c)"
    and "Token r = Some (resolvedToken parseInt env c)"
    and "\<exists>customTokens. resolvedCustomTokens parseInt env (CustomTokens c)
             (resolvedToken parseInt env c) = Inr customTokens
           \<and> CustomTokens r = Some customTokens"
    and "Debug r = resolvedDebug parseBool env c"
    and "DisableEnvs r = DisableEnvs c"
proof -
  have r: "resolved parseBool parseInt env c = Inr r"
    using assms by (simp add: setConfiguration_resolved)
  show "IP r = Some (resolvedIP parseInt env c)"
    and "Token r = Some (resolvedToken parseInt env c)"
    and "\<exists>customTokens. resolvedCustomTokens parseInt env (CustomTokens c)
             (resolvedToken parseInt env c) = Inr customTokens
           \<and> CustomTokens r = Some customTokens"
    and "Debug r = resolvedDebug parseBool env c"
    and "DisableEnvs r = DisableEnvs c"
    using resolved_Inr_fields [OF r] by simp_all
qed

lemma resolvedCustomTokens_entries:
  assumes "resolvedCustomTokens parseInt env given token = Inr customTokens"
  shows "entries customTokens key =
           (if key \<in> set (getCustomTokenList env)
            then Some (Some (customTokenRate parseInt env token key))
            else (case (case given of None \<Rightarrow> None | Some m \<Rightarrow> entries m key) of
                    Some None \<Rightarrow> Some (Some token)
                  | v \<Rightarrow> v))"
proof (cases given)
  case None
  then show ?thesis
    using assms by (auto simp: resolvedCustomTokens_def)
next
  case (Some m)
  then show ?thesis
    using assms by (cases m) (auto simp: resolvedCustomTokens_def split: if_splits)
qed

lemma name_form:
  "k = p @ t @ s \<longleftrightarrow> (\<exists>rest. stripPrefix p k = Some rest \<and> stripSuffix s rest = Some t)"
  by (auto simp: stripPrefix_iff stripSuffix_iff)

lemma resolvedRate_idem:
  "resolvedRate parseInt env maxKey blockKey disabled
     (Some (resolvedRate parseInt env maxKey blockKey disabled given dflt)) dflt'
   = resolvedRate parseInt env maxKey blockKey disabled given dflt"
  by (simp add: resolvedRate_def overrideRate_def envOr_def Let_def split: option.splits)

lemma resolvedCustomTokens_idem:
  assumes "resolvedCustomTokens parseInt env given token = Inr customTokens"
  shows "resolvedCustomTokens parseInt env (Some customTokens) token = Inr customTokens"
proof (cases customTokens)
  case NilMap
  then have "getCustomTokenList env = []"
    using assms
    by (cases given; cases "the given") (auto simp: resolvedCustomTokens_def split: if_splits)
  then show ?thesis
    using NilMap by (simp add: resolvedCustomTokens_def)
next
  case (GoMap m)
  have at: "m key =
           (if key \<in> set (getCustomTokenList env)
            then Some (Some (customTokenRate parseInt env token key))
            else (case (case given of None \<Rightarrow> None | Some m \<Rightarrow> entries m key) of
                    Some None \<Rightarrow> Some (Some token)
                  | v \<Rightarrow> v))" for key
    using resolvedCustomTokens_entries [OF assms, of key] GoMap by simp
  have "(\<lambda>key. if key \<in> set (getCustomTokenList env)
                then Some (Some (customTokenRate parseInt env token key))
                else (case m key of Some None \<Rightarrow> Some (Some token) | v \<Rightarrow> v)) = m"
    by (rule ext) (auto simp: at split: option.splits)
  then show ?thesis
    using GoMap by (simp add: resolvedCustomTokens_def)
qed

lemma resolvedStorageAdapter_idem:
  assumes "resolvedStorageAdapter parseBool parseInt env given = Inr storageAdapter"
  shows "resolvedStorageAdapter parseBool parseInt env (Some storageAdapter) = Inr storageAdapter"
  using assms by (auto simp: resolvedStorageAdapter_def split: if_splits option.splits)

lemma resolved_idem:
  assumes "resolved parseBool parseInt env c = Inr r"
  shows "resolved parseBool parseInt env r = Inr r"
proof -
  note f = resolved_Inr_fields [OF assms]
  obtain customTokens where ct:
    "resolvedCustomTokens parseInt env (CustomTokens c) (resolvedToken parseInt env c) = Inr customTokens"
    "CustomTokens r = Some customTokens"
    using f(3) by blast
  obtain storageAdapter where sa:
    "resolvedStorageAdapter parseBool parseInt env (StorageAdapter c) = Inr storageAdapter"
    "StorageAdapter r = Some storageAdapter"
    using f(4) by blast
  have ip: "resolvedIP parseInt env r = resolvedIP parseInt env c"
    unfolding resolvedIP_def f(1) f(7) by (rule resolvedRate_idem)
  have tok: "resolvedToken parseInt env r = resolvedToken parseInt env c"
    unfolding resolvedToken_def f(2) f(7) by (rule resolvedRate_idem)
  have dbg: "resolvedDebug parseBool env r = Debug r"
    by (simp add: resolvedDebug_def f(6) f(7) split: option.splits)
  have rw: "(case ResponseWriter r of None \<Rightarrow> NewRateLimiterDefaultResponseWriter | Some w \<Rightarrow> w)
              = the (ResponseWriter r)"
    by (simp add: f(5))
  have "resolved parseBool parseInt env r =
          Inr \<lparr> IP = IP r, Token = Token r, CustomTokens = CustomTokens r,
                StorageAdapter = StorageAdapter r, ResponseWriter = ResponseWriter r,
                Debug = Debug r, DisableEnvs = DisableEnvs r \<rparr>"
    unfolding resolved_def tok ip dbg rw ct(2) sa(2)
      resolvedCustomTokens_idem [OF ct(1)] resolvedStorageAdapter_idem [OF sa(1)]
    by (simp add: f(1) f(2) f(5))
  then show ?thesis
    by simp
qed

lemma tokensABC: "getCustomTokenList [''RATE_LIMITER_TOKEN_ABC_MAX_REQUESTS=50''] = [''ABC'']"
  by (simp add: getCustomTokenList_def Environ_def envPairKey_def envKeyRegex_def
        stripSuffix_def dotStar_def)

lemma configureEach_order:
  assumes "Token config = Some t" and "CustomTokens config = Some m"
    and "set customTokens = set customTokens'"
  shows "configureEach parseInt env d customTokens config
           = configureEach parseInt env d customTokens' config"
proof (cases m)
  case NilMap
  have "customTokens = [] \<longleftrightarrow> customTokens' = []"
    using assms(3) by auto
  then show ?thesis
    using assms NilMap by (simp add: configureEach_NilMap [where t = t])
next
  case (GoMap f)
  then show ?thesis
    using assms by (simp add: configureEach_GoMap [where t = t and m = f])
qed

lemma tokensGOLD: "getCustomTokenList [''RATE_LIMITER_TOKEN_GOLD_BLOCK_TIME=10''] = [''GOLD'']"
  by (simp add: getCustomTokenList_def Environ_def envPairKey_def envKeyRegex_def
        stripSuffix_def dotStar_def)

text \<open>
  \<open>configureStorageAdapter\<close> reads \<open>RATE_LIMITER_USE_REDIS\<close> whatever \<open>DisableEnvs\<close>
  says: with the flag set and the variable true, the redis adapter is installed.
\<close>

lemma redis_selected_with_envs_disabled:
  "setConfiguration boolLiteral intLiteral
     [''RATE_LIMITER_USE_REDIS=true'', ''RATE_LIMITER_REDIS_ADDRESS=localhost:6379'']
     (Some \<lparr> IP = None, Token = None, CustomTokens = None, StorageAdapter = None,
             ResponseWriter = None, Debug = False, DisableEnvs = True \<rparr>)
   = Inr \<lparr> IP = Some \<lparr> MaxRequestsPerSecond = 100, BlockTimeMilliseconds = 1000 \<rparr>,
           Token = Some \<lparr> MaxRequestsPerSecond = 200, BlockTimeMilliseconds = 500 \<rparr>,
           CustomTokens = Some (GoMap Map.empty),
           StorageAdapter = Some (NewRateLimitRedisStorageAdapter ''localhost:6379'' [] 0),
           ResponseWriter = Some NewRateLimiterDefaultResponseWriter,
           Debug = False, DisableEnvs = True \<rparr>"
proof -
  have true: "boolLiteral ''true'' = Some True"
    by code_simp
  have none: "getCustomTokenList
      [''RATE_LIMITER_USE_REDIS=true'', ''RATE_LIMITER_REDIS_ADDRESS=localhost:6379''] = []"
    by (simp add: getCustomTokenList_def Environ_def envPairKey_def envKeyRegex_def)
  show ?thesis
    by (simp add: setConfiguration_resolved resolved_def resolvedCustomTokens_def
          resolvedStorageAdapter_def resolvedIP_def resolvedToken_def resolvedRate_def
          resolvedDebug_def envOr_def getStringEnv_def
          getBoolEnv_def getInt64Env_def envUseRedis_def envRedisAddress_def
          envRedisPassword_def envRedisDB_def envPairKey_def none true)
qed


section \<open>Properties of the resolver\<close>

text \<open>
  Claim C1 does not hold of the code. \<open>configureCustomTokens\<close> scans the environment
  without looking at \<open>DisableEnvs\<close>: with the flag set and
  \<open>RATE_LIMITER_TOKEN_ABC_MAX_REQUESTS=50\<close> in the environment, the result has the custom
  token \<open>ABC\<close>, whatever the integer reader makes of \<open>50\<close>; the same configuration
  under the empty environment has no custom token.
\<close>

theorem disabled_envs_still_discover_custom_tokens:
  "(\<exists>r m. setConfiguration parseBool parseInt [''RATE_LIMITER_TOKEN_ABC_MAX_REQUESTS=50'']
            (Some \<lparr> IP = None, Token = None, CustomTokens = None, StorageAdapter = None,
                    ResponseWriter = None, Debug = False, DisableEnvs = True \<rparr>) = Inr r
          \<and> CustomTokens r = Some (GoMap m) \<and> dom m = {''ABC''})
   \<and> setConfiguration parseBool parseInt []
        (Some \<lparr> IP = None, Token = None, CustomTokens = None, StorageAdapter = None,
                ResponseWriter = None, Debug = False, DisableEnvs = True \<rparr>)
      = Inr \<lparr> IP = Some \<lparr> MaxRequestsPerSecond = 100, BlockTimeMilliseconds = 1000 \<rparr>,
              Token = Some \<lparr> MaxRequestsPerSecond = 200, BlockTimeMilliseconds = 500 \<rparr>,
              CustomTokens = Some (GoMap Map.empty),
              StorageAdapter = Some NewRateLimitMemoryStorageAdapter,
              ResponseWriter = Some NewRateLimiterDefaultResponseWriter,
              Debug = False, DisableEnvs = True \<rparr>"
proof -
  have none: "getCustomTokenList [] = []"
    by (simp add: getCustomTokenList_def Environ_def)
  have "dom (\<lambda>key. if key = ''ABC'' then Some (Some (customTokenRate parseInt
            [''RATE_LIMITER_TOKEN_ABC_MAX_REQUESTS=50'']
            \<lparr> MaxRequestsPerSecond = 200, BlockTimeMilliseconds = 500 \<rparr> key)) else None) = {''ABC''}"
    by (auto simp: dom_def)
  then show ?thesis
    by (simp add: setConfiguration_resolved resolved_def resolvedCustomTokens_def
          resolvedStorageAdapter_def resolvedIP_def resolvedToken_def resolvedRate_def
          resolvedDebug_def getBoolEnv_def envUseRedis_def envPairKey_def tokensABC none)
qed

text \<open>
  Claim C2 does not hold of the code, by the same missing check: a configuration with only
  \<open>DisableEnvs\<close> set does not resolve to the default policy when the environment holds
  \<open>RATE_LIMITER_TOKEN_GOLD_BLOCK_TIME=10\<close>. Its custom-token map has the key \<open>GOLD\<close>.
\<close>

theorem disabled_envs_result_is_not_the_default:
  "\<exists>r m. setConfiguration parseBool parseInt [''RATE_LIMITER_TOKEN_GOLD_BLOCK_TIME=10'']
            (Some \<lparr> IP = None, Token = None, CustomTokens = None, StorageAdapter = None,
                    ResponseWriter = None, Debug = False, DisableEnvs = True \<rparr>) = Inr r
          \<and> CustomTokens r = Some (GoMap m)
          \<and> m ''GOLD'' = Some (Some \<lparr> MaxRequestsPerSecond = 200,
                 BlockTimeMilliseconds = (case parseInt ''10'' of Some v \<Rightarrow> v | None \<Rightarrow> 500) \<rparr>)"
  by (simp add: setConfiguration_resolved resolved_def resolvedCustomTokens_def
          resolvedStorageAdapter_def resolvedIP_def resolvedToken_def resolvedRate_def
          resolvedDebug_def getBoolEnv_def envUseRedis_def envPairKey_def tokensGOLD
          customTokenRate_def overrideRate_def envOr_def getInt64Env_def)

text \<open>
  Claim C3. When \<open>RATE_LIMITER_USE_REDIS\<close> holds a text the boolean reader takes for
  true and \<open>RATE_LIMITER_REDIS_ADDRESS\<close> is unset, the resolution call does not return
  a configuration, whatever the caller passed: it panics with the message naming the
  missing variable. The one other outcome is an earlier runtime panic, when the caller's
  custom-token map is a \<open>nil\<close> map and the environment declares a custom token.
\<close>

theorem redis_address_required:
  assumes "LookupEnv env envUseRedis = Some s" and "parseBool s = Some True"
    and "LookupEnv env envRedisAddress = None"
  shows "setConfiguration parseBool parseInt env config =
           Inl (Panic ''RATE_LIMITER_REDIS_ADDRESS env is required when using redis adapter with env configuration'')
         \<or> (setConfiguration parseBool parseInt env config = Inl AssignmentToNilMap
              \<and> (\<exists>c. config = Some c \<and> CustomTokens c = Some NilMap)
              \<and> getCustomTokenList env \<noteq> [])"
proof -
  define c where "c = (case config of None \<Rightarrow> getDefaultConfiguration | Some c \<Rightarrow> c)"
  have set: "setConfiguration parseBool parseInt env config = resolved parseBool parseInt env c"
    by (simp add: setConfiguration_resolved c_def)
  have redis: "resolvedStorageAdapter parseBool parseInt env (StorageAdapter c) =
      Inl (Panic ''RATE_LIMITER_REDIS_ADDRESS env is required when using redis adapter with env configuration'')"
    using assms
    by (simp add: resolvedStorageAdapter_def getBoolEnv_def getStringEnv_def envRedisAddress_def)
  show ?thesis
  proof (cases "resolvedCustomTokens parseInt env (CustomTokens c) (resolvedToken parseInt env c)")
    case (Inl e)
    then have e: "e = AssignmentToNilMap" and nil: "CustomTokens c = Some NilMap"
      and found: "getCustomTokenList env \<noteq> []"
      by (simp_all add: resolvedCustomTokens_Inl)
    have "resolved parseBool parseInt env c = Inl AssignmentToNilMap"
      using Inl e by (simp add: resolved_def)
    moreover have "\<exists>c. config = Some c \<and> CustomTokens c = Some NilMap"
      using nil caller_NilMap [of config] by (simp add: c_def)
    ultimately show ?thesis
      using found set by simp
  next
    case (Inr customTokens)
    then have "resolved parseBool parseInt env c =
      Inl (Panic ''RATE_LIMITER_REDIS_ADDRESS env is required when using redis adapter with env configuration'')"
      by (simp add: resolved_def redis)
    then show ?thesis
      using set by simp
  qed
qed

theorem redis_address_required_witness:
  "setConfiguration boolLiteral intLiteral
     [''HOME=/root'', ''RATE_LIMITER_USE_REDIS=TRUE'', ''RATE_LIMITER_TOKEN_ABC_MAX_REQUESTS=50''] None =
           Inl (Panic ''RATE_LIMITER_REDIS_ADDRESS env is required when using redis adapter with env configuration'')"
proof -
  let ?env = "[''HOME=/root'', ''RATE_LIMITER_USE_REDIS=TRUE'', ''RATE_LIMITER_TOKEN_ABC_MAX_REQUESTS=50'']"
  have h1: "LookupEnv ?env envUseRedis = Some ''TRUE''"
    by (simp add: envUseRedis_def envPairKey_def)
  have h2: "boolLiteral ''TRUE'' = Some True"
    by code_simp
  have h3: "LookupEnv ?env envRedisAddress = None"
    by (simp add: envRedisAddress_def envPairKey_def)
  show ?thesis
    using redis_address_required [where parseBool = boolLiteral and parseInt = intLiteral
            and config = None, OF h1 h2 h3]
    by simp
qed

text \<open>
  Claim C4. The environment holds \<open>RATE_LIMITER_TOKEN_ABC_MAX_REQUESTS=50\<close> and
  \<open>RATE_LIMITER_TOKEN_XYZ_BLOCK_TIME=999\<close> and no other name of the two custom-token
  forms; the caller has the environment overrides on and no custom-token entry. When the
  resolution call returns, the keys of the custom-token map are exactly \<open>ABC\<close> and
  \<open>XYZ\<close>; \<open>ABC\<close> has max-requests 50 and the block-time of the resolved Token policy,
  \<open>XYZ\<close> has block-time 999 and the max-requests of the resolved Token policy.
\<close>

theorem custom_tokens_discovered:
  assumes ret: "setConfiguration parseBool parseInt env config = Inr r"
    and caller: "\<forall>c. config = Some c \<longrightarrow>
                   \<not> DisableEnvs c \<and> (\<forall>m. CustomTokens c = Some m \<longrightarrow> entries m = Map.empty)"
    and abc: "LookupEnv env ''RATE_LIMITER_TOKEN_ABC_MAX_REQUESTS'' = Some ''50''"
    and fifty: "parseInt ''50'' = Some 50"
    and xyz: "LookupEnv env ''RATE_LIMITER_TOKEN_XYZ_BLOCK_TIME'' = Some ''999''"
    and nines: "parseInt ''999'' = Some 999"
    and others: "\<forall>e \<in> set env. \<forall>t.
                   envPairKey e = ''RATE_LIMITER_TOKEN_'' @ t @ ''_MAX_REQUESTS''
                 \<or> envPairKey e = ''RATE_LIMITER_TOKEN_'' @ t @ ''_BLOCK_TIME''
                 \<longrightarrow> envPairKey e = ''RATE_LIMITER_TOKEN_ABC_MAX_REQUESTS''
                   \<or> envPairKey e = ''RATE_LIMITER_TOKEN_XYZ_BLOCK_TIME''"
  shows "\<exists>customTokens token a x.
           CustomTokens r = Some customTokens \<and> Token r = Some token
           \<and> dom (entries customTokens) = {''ABC'', ''XYZ''}
           \<and> entries customTokens ''ABC'' = Some (Some a)
           \<and> MaxRequestsPerSecond a = 50
           \<and> BlockTimeMilliseconds a = BlockTimeMilliseconds token
           \<and> entries customTokens ''XYZ'' = Some (Some x)
           \<and> BlockTimeMilliseconds x = 999
           \<and> MaxRequestsPerSecond x = MaxRequestsPerSecond token"
proof -
  define c where "c = (case config of None \<Rightarrow> getDefaultConfiguration | Some c \<Rightarrow> c)"
  define token where "token = resolvedToken parseInt env c"
  have tok: "Token r = Some token"
    using setConfiguration_Inr_fields(2) [OF ret c_def] by (simp add: token_def)
  obtain customTokens
    where res: "resolvedCustomTokens parseInt env (CustomTokens c) token = Inr customTokens"
      and cus: "CustomTokens r = Some customTokens"
    using setConfiguration_Inr_fields(3) [OF ret c_def] by (auto simp: token_def)
  note at = resolvedCustomTokens_entries [OF res]
  have kABC: "''RATE_LIMITER_TOKEN_ABC_MAX_REQUESTS'' = ''RATE_LIMITER_TOKEN_'' @ ''ABC'' @ ''_MAX_REQUESTS''"
    and kXYZ: "''RATE_LIMITER_TOKEN_XYZ_BLOCK_TIME'' = ''RATE_LIMITER_TOKEN_'' @ ''XYZ'' @ ''_BLOCK_TIME''"
    by simp_all
  have empty: "(case CustomTokens c of None \<Rightarrow> None | Some m \<Rightarrow> entries m key) = None" for key
    using caller by (cases config) (auto simp: c_def getDefaultConfiguration_def split: option.splits)
  have inABC: "''ABC'' \<in> set (getCustomTokenList env)"
    using LookupEnv_Some_entry [OF abc]
    by (auto simp: set_getCustomTokenList envKeyRegex_iff)
  have inXYZ: "''XYZ'' \<in> set (getCustomTokenList env)"
    using LookupEnv_Some_entry [OF xyz]
    by (auto simp: set_getCustomTokenList envKeyRegex_iff)
  have only: "t = ''ABC'' \<or> t = ''XYZ''" if mem: "t \<in> set (getCustomTokenList env)" for t
  proof -
    obtain e where e: "e \<in> set env"
      and name: "envPairKey e = ''RATE_LIMITER_TOKEN_'' @ t @ ''_MAX_REQUESTS''
                 \<or> envPairKey e = ''RATE_LIMITER_TOKEN_'' @ t @ ''_BLOCK_TIME''"
      using mem by (auto simp: set_getCustomTokenList envKeyRegex_iff)
    have "envPairKey e = ''RATE_LIMITER_TOKEN_'' @ ''ABC'' @ ''_MAX_REQUESTS''
          \<or> envPairKey e = ''RATE_LIMITER_TOKEN_'' @ ''XYZ'' @ ''_BLOCK_TIME''"
      using others e name unfolding kABC [symmetric] kXYZ [symmetric] by blast
    then show ?thesis
      using name suffixes_differ [of t "''XYZ''"] suffixes_differ [of "''ABC''" t]
      by (auto simp only: append_same_eq same_append_eq)
  qed
  have found: "set (getCustomTokenList env) = {''ABC'', ''XYZ''}"
    using inABC inXYZ only by auto
  have noBlock: "LookupEnv env (''RATE_LIMITER_TOKEN_'' @ ''ABC'' @ ''_BLOCK_TIME'') = None"
    unfolding LookupEnv_None_iff
  proof (intro ballI impI notI)
    fix e
    assume "e \<in> set env" and "envPairKey e = ''RATE_LIMITER_TOKEN_'' @ ''ABC'' @ ''_BLOCK_TIME''"
    then have "envPairKey e = ''RATE_LIMITER_TOKEN_ABC_MAX_REQUESTS''
                   \<or> envPairKey e = ''RATE_LIMITER_TOKEN_XYZ_BLOCK_TIME''"
      using others by blast
    with \<open>envPairKey e = ''RATE_LIMITER_TOKEN_'' @ ''ABC'' @ ''_BLOCK_TIME''\<close>
    show False by simp
  qed
  have noMax: "LookupEnv env (''RATE_LIMITER_TOKEN_'' @ ''XYZ'' @ ''_MAX_REQUESTS'') = None"
    unfolding LookupEnv_None_iff
  proof (intro ballI impI notI)
    fix e
    assume "e \<in> set env" and "envPairKey e = ''RATE_LIMITER_TOKEN_'' @ ''XYZ'' @ ''_MAX_REQUESTS''"
    then have "envPairKey e = ''RATE_LIMITER_TOKEN_ABC_MAX_REQUESTS''
                   \<or> envPairKey e = ''RATE_LIMITER_TOKEN_XYZ_BLOCK_TIME''"
      using others by blast
    with \<open>envPairKey e = ''RATE_LIMITER_TOKEN_'' @ ''XYZ'' @ ''_MAX_REQUESTS''\<close>
    show False by simp
  qed
  have rateABC: "customTokenRate parseInt env token ''ABC'' =
      \<lparr> MaxRequestsPerSecond = 50, BlockTimeMilliseconds = BlockTimeMilliseconds token \<rparr>"
    using abc fifty noBlock
    by (simp add: customTokenRate_def overrideRate_def envOr_def getInt64Env_def)
  have rateXYZ: "customTokenRate parseInt env token ''XYZ'' =
      \<lparr> MaxRequestsPerSecond = MaxRequestsPerSecond token, BlockTimeMilliseconds = 999 \<rparr>"
    using xyz nines noMax
    by (simp add: customTokenRate_def overrideRate_def envOr_def getInt64Env_def)
  have keys: "dom (entries customTokens) = {''ABC'', ''XYZ''}"
    by (auto simp: dom_def at found empty split: if_splits)
  have "entries customTokens ''ABC'' = Some (Some (customTokenRate parseInt env token ''ABC''))"
    and "entries customTokens ''XYZ'' = Some (Some (customTokenRate parseInt env token ''XYZ''))"
    by (simp_all add: at found)
  then show ?thesis
    using tok cus keys by (simp add: rateABC rateXYZ)
qed

theorem custom_tokens_discovered_witness:
  "\<exists>r customTokens.
     setConfiguration boolLiteral intLiteral
       [''PATH=/usr/bin'', ''RATE_LIMITER_TOKEN_ABC_MAX_REQUESTS=50'',
        ''RATE_LIMITER_TOKEN_BLOCK_TIME=250'', ''RATE_LIMITER_TOKEN_XYZ_BLOCK_TIME=999''] None = Inr r
     \<and> Token r = Some \<lparr> MaxRequestsPerSecond = 200, BlockTimeMilliseconds = 250 \<rparr>
     \<and> CustomTokens r = Some customTokens
     \<and> dom (entries customTokens) = {''ABC'', ''XYZ''}
     \<and> entries customTokens ''ABC''
         = Some (Some \<lparr> MaxRequestsPerSecond = 50, BlockTimeMilliseconds = 250 \<rparr>)
     \<and> entries customTokens ''XYZ''
         = Some (Some \<lparr> MaxRequestsPerSecond = 200, BlockTimeMilliseconds = 999 \<rparr>)"
proof -
  let ?env = "[''PATH=/usr/bin'', ''RATE_LIMITER_TOKEN_ABC_MAX_REQUESTS=50'',
        ''RATE_LIMITER_TOKEN_BLOCK_TIME=250'', ''RATE_LIMITER_TOKEN_XYZ_BLOCK_TIME=999'']"
  have "\<exists>r. setConfiguration boolLiteral intLiteral ?env None = Inr r"
    by (simp add: setConfiguration_returns_iff getBoolEnv_def envUseRedis_def envPairKey_def)
  then obtain r where r: "setConfiguration boolLiteral intLiteral ?env None = Inr r" ..
  have caller: "\<forall>c. (None :: RateLimiterConfig option) = Some c \<longrightarrow>
                   \<not> DisableEnvs c \<and> (\<forall>m. CustomTokens c = Some m \<longrightarrow> entries m = Map.empty)"
    by simp
  have abc: "LookupEnv ?env ''RATE_LIMITER_TOKEN_ABC_MAX_REQUESTS'' = Some ''50''"
    and xyz: "LookupEnv ?env ''RATE_LIMITER_TOKEN_XYZ_BLOCK_TIME'' = Some ''999''"
    by (simp_all add: envPairKey_def)
  have fifty: "intLiteral ''50'' = Some 50" and nines: "intLiteral ''999'' = Some 999"
    and quarter: "intLiteral ''250'' = Some 250"
    by (simp_all add: intLiteral_def digitValue_def)
  have others: "\<forall>e \<in> set ?env. \<forall>t.
                   envPairKey e = ''RATE_LIMITER_TOKEN_'' @ t @ ''_MAX_REQUESTS''
                 \<or> envPairKey e = ''RATE_LIMITER_TOKEN_'' @ t @ ''_BLOCK_TIME''
                 \<longrightarrow> envPairKey e = ''RATE_LIMITER_TOKEN_ABC_MAX_REQUESTS''
                   \<or> envPairKey e = ''RATE_LIMITER_TOKEN_XYZ_BLOCK_TIME''"
  proof (intro ballI allI impI)
    fix e t
    assume e: "e \<in> set ?env"
      and form: "envPairKey e = ''RATE_LIMITER_TOKEN_'' @ t @ ''_MAX_REQUESTS''
                 \<or> envPairKey e = ''RATE_LIMITER_TOKEN_'' @ t @ ''_BLOCK_TIME''"
    have "envPairKey e \<in> {''PATH'', ''RATE_LIMITER_TOKEN_ABC_MAX_REQUESTS'',
            ''RATE_LIMITER_TOKEN_BLOCK_TIME'', ''RATE_LIMITER_TOKEN_XYZ_BLOCK_TIME''}"
      using e by (auto simp: envPairKey_def)
    then show "envPairKey e = ''RATE_LIMITER_TOKEN_ABC_MAX_REQUESTS''
                   \<or> envPairKey e = ''RATE_LIMITER_TOKEN_XYZ_BLOCK_TIME''"
      using form unfolding name_form by (auto simp: stripSuffix_def)
  qed
  have token: "Token r = Some \<lparr> MaxRequestsPerSecond = 200, BlockTimeMilliseconds = 250 \<rparr>"
    using setConfiguration_Inr_fields(2) [OF r refl]
    by (simp add: resolvedToken_def resolvedRate_def overrideRate_def envOr_def getInt64Env_def
          envKeyTokenMaxRequestsPerSecond_def envKeyTokenBlockTimeMilliseconds_def envPairKey_def
          getDefaultConfiguration_def quarter)
  from custom_tokens_discovered [OF r caller abc fifty xyz nines others]
  obtain customTokens tok a x where
    res: "CustomTokens r = Some customTokens" "Token r = Some tok"
    "dom (entries customTokens) = {''ABC'', ''XYZ''}"
    "entries customTokens ''ABC'' = Some (Some a)"
    "MaxRequestsPerSecond a = 50"
    "BlockTimeMilliseconds a = BlockTimeMilliseconds tok"
    "entries customTokens ''XYZ'' = Some (Some x)"
    "BlockTimeMilliseconds x = 999"
    "MaxRequestsPerSecond x = MaxRequestsPerSecond tok"
    by (elim exE conjE)
  have tok: "tok = \<lparr> MaxRequestsPerSecond = 200, BlockTimeMilliseconds = 250 \<rparr>"
    using res(2) token by simp
  have a: "a = \<lparr> MaxRequestsPerSecond = 50, BlockTimeMilliseconds = 250 \<rparr>"
    using res(5,6) by (cases a) (simp add: tok)
  have x: "x = \<lparr> MaxRequestsPerSecond = 200, BlockTimeMilliseconds = 999 \<rparr>"
    using res(8,9) by (cases x) (simp add: tok)
  show ?thesis
    using r token res(1,3,4,7) unfolding a x by (intro exI conjI)
qed

text \<open>
  Claim C5, as the code has it. Every identifier \<open>getCustomTokenList\<close> produces is
  the text between \<open>RATE_LIMITER_TOKEN_\<close> and \<open>_MAX_REQUESTS\<close> or \<open>_BLOCK_TIME\<close> in
  the name of an environment entry, and holds no line feed. The submatch \<open>(.*)\<close> puts
  no other condition on it: the counterexample shows the empty identifier, and an
  identifier that contains \<open>_MAX_REQUESTS\<close>, both produced.
\<close>

theorem getCustomTokenList_names:
  assumes "t \<in> set (getCustomTokenList env)"
  shows "CHR 0x0A \<notin> set t
         \<and> (\<exists>e \<in> set env. envPairKey e = ''RATE_LIMITER_TOKEN_'' @ t @ ''_MAX_REQUESTS''
                          \<or> envPairKey e = ''RATE_LIMITER_TOKEN_'' @ t @ ''_BLOCK_TIME'')"
  using assms by (auto simp: set_getCustomTokenList envKeyRegex_iff)

theorem getCustomTokenList_names_witness:
  "''ABC_1'' \<in> set (getCustomTokenList [''HOME=/root'', ''RATE_LIMITER_TOKEN_ABC_1_BLOCK_TIME=100''])
   \<and> CHR 0x0A \<notin> set ''ABC_1''
   \<and> (\<exists>e \<in> set [''HOME=/root'', ''RATE_LIMITER_TOKEN_ABC_1_BLOCK_TIME=100''].
          envPairKey e = ''RATE_LIMITER_TOKEN_'' @ ''ABC_1'' @ ''_MAX_REQUESTS''
        \<or> envPairKey e = ''RATE_LIMITER_TOKEN_'' @ ''ABC_1'' @ ''_BLOCK_TIME'')"
proof -
  have found: "''ABC_1'' \<in> set (getCustomTokenList [''HOME=/root'', ''RATE_LIMITER_TOKEN_ABC_1_BLOCK_TIME=100''])"
    by (simp add: getCustomTokenList_def Environ_def envPairKey_def envKeyRegex_def
        stripSuffix_def dotStar_def)
  show ?thesis
    using getCustomTokenList_names [OF found] found by blast
qed

theorem getCustomTokenList_counterexample:
  "getCustomTokenList [''RATE_LIMITER_TOKEN__MAX_REQUESTS=1'',
                       ''RATE_LIMITER_TOKEN_A_MAX_REQUESTS_BLOCK_TIME=2'']
     = [''A_MAX_REQUESTS'', '''']"
  by (simp add: getCustomTokenList_def Environ_def envPairKey_def envKeyRegex_def
        stripSuffix_def dotStar_def)

text \<open>
  Claim C6. Let the caller leave the IP policy unset and the environment overrides on
  (or pass no configuration at all), and let the resolution call return. If
  \<open>RATE_LIMITER_IP_MAX_REQUESTS\<close> holds a text the integer reader reads as \<open>v\<close>, the
  resolved IP max-requests is \<open>v\<close>; if the variable is unset, or holds a text the
  integer reader rejects, it is the default 100.
\<close>

theorem ip_max_requests_from_environment:
  assumes "setConfiguration parseBool parseInt env config = Inr r"
    and "\<forall>c. config = Some c \<longrightarrow> \<not> DisableEnvs c \<and> IP c = None"
  shows "\<exists>ip. IP r = Some ip
           \<and> (\<forall>s v. LookupEnv env envKeyIPMaxRequestsPerSecond = Some s \<and> parseInt s = Some v
                  \<longrightarrow> MaxRequestsPerSecond ip = v)
           \<and> (LookupEnv env envKeyIPMaxRequestsPerSecond = None
                  \<longrightarrow> MaxRequestsPerSecond ip = 100)
           \<and> (\<forall>s. LookupEnv env envKeyIPMaxRequestsPerSecond = Some s \<and> parseInt s = None
                  \<longrightarrow> MaxRequestsPerSecond ip = 100)"
proof -
  define c where "c = (case config of None \<Rightarrow> getDefaultConfiguration | Some c \<Rightarrow> c)"
  have c: "\<not> DisableEnvs c" "IP c = Some \<lparr> MaxRequestsPerSecond = 100, BlockTimeMilliseconds = 1000 \<rparr>
              \<or> IP c = None"
    using assms(2) by (cases config; simp add: c_def getDefaultConfiguration_def)+
  have ip: "IP r = Some (resolvedIP parseInt env c)"
    using setConfiguration_Inr_fields(1) [OF assms(1) c_def] .
  have "MaxRequestsPerSecond (resolvedIP parseInt env c) =
          envOr (getInt64Env parseInt env envKeyIPMaxRequestsPerSecond) 100"
    using c by (auto simp: resolvedIP_def resolvedRate_def overrideRate_def)
  then show ?thesis
    using ip by (auto simp: envOr_def getInt64Env_def)
qed

theorem ip_max_requests_from_environment_witness:
  "(\<exists>r ip. setConfiguration boolLiteral intLiteral
       [''RATE_LIMITER_IP_MAX_REQUESTS=42'', ''RATE_LIMITER_IP_BLOCK_TIME=soon'']
       (Some \<lparr> IP = None, Token = None, CustomTokens = None, StorageAdapter = None,
               ResponseWriter = None, Debug = False, DisableEnvs = False \<rparr>) = Inr r
     \<and> IP r = Some ip \<and> MaxRequestsPerSecond ip = 42)
   \<and> (\<exists>r ip. setConfiguration boolLiteral intLiteral
       [''RATE_LIMITER_IP_MAX_REQUESTS=many''] None = Inr r
     \<and> IP r = Some ip \<and> MaxRequestsPerSecond ip = 100)
   \<and> (\<exists>r ip. setConfiguration boolLiteral intLiteral
       [''RATE_LIMITER_IP_BLOCK_TIME=5''] None = Inr r
     \<and> IP r = Some ip \<and> MaxRequestsPerSecond ip = 100)"
proof -
  let ?env = "[''RATE_LIMITER_IP_MAX_REQUESTS=42'', ''RATE_LIMITER_IP_BLOCK_TIME=soon'']"
  let ?config = "Some \<lparr> IP = None, Token = None, CustomTokens = None, StorageAdapter = None,
               ResponseWriter = None, Debug = False, DisableEnvs = False \<rparr>"
  have "\<exists>r. setConfiguration boolLiteral intLiteral ?env ?config = Inr r"
    by (simp add: setConfiguration_returns_iff getBoolEnv_def envUseRedis_def envPairKey_def)
  then obtain r where r: "setConfiguration boolLiteral intLiteral ?env ?config = Inr r" ..
  have unset: "\<forall>c. ?config = Some c \<longrightarrow> \<not> DisableEnvs c \<and> IP c = None"
    by simp
  have given: "LookupEnv ?env envKeyIPMaxRequestsPerSecond = Some ''42''"
    by (simp add: envKeyIPMaxRequestsPerSecond_def envPairKey_def)
  have parsed: "intLiteral ''42'' = Some 42"
    by (simp add: intLiteral_def digitValue_def)
  have first: "\<exists>r ip. setConfiguration boolLiteral intLiteral ?env ?config = Inr r
     \<and> IP r = Some ip \<and> MaxRequestsPerSecond ip = 42"
    using ip_max_requests_from_environment [OF r unset] r given parsed by blast
  let ?env2 = "[''RATE_LIMITER_IP_MAX_REQUESTS=many'']"
  have "\<exists>r. setConfiguration boolLiteral intLiteral ?env2 None = Inr r"
    by (simp add: setConfiguration_returns_iff getBoolEnv_def envUseRedis_def envPairKey_def)
  then obtain r2 where r2: "setConfiguration boolLiteral intLiteral ?env2 None = Inr r2" ..
  have absent: "\<forall>c. (None :: RateLimiterConfig option) = Some c \<longrightarrow> \<not> DisableEnvs c \<and> IP c = None"
    by simp
  have given2: "LookupEnv ?env2 envKeyIPMaxRequestsPerSecond = Some ''many''"
    by (simp add: envKeyIPMaxRequestsPerSecond_def envPairKey_def)
  have parsed2: "intLiteral ''many'' = None"
    by (simp add: intLiteral_def digitValue_def)
  have second: "\<exists>r ip. setConfiguration boolLiteral intLiteral ?env2 None = Inr r
     \<and> IP r = Some ip \<and> MaxRequestsPerSecond ip = 100"
    using ip_max_requests_from_environment [OF r2 absent] r2 given2 parsed2 by blast
  let ?env3 = "[''RATE_LIMITER_IP_BLOCK_TIME=5'']"
  have "\<exists>r. setConfiguration boolLiteral intLiteral ?env3 None = Inr r"
    by (simp add: setConfiguration_returns_iff getBoolEnv_def envUseRedis_def envPairKey_def)
  then obtain r3 where r3: "setConfiguration boolLiteral intLiteral ?env3 None = Inr r3" ..
  have given3: "LookupEnv ?env3 envKeyIPMaxRequestsPerSecond = None"
    by (simp add: envKeyIPMaxRequestsPerSecond_def envPairKey_def)
  have third: "\<exists>r ip. setConfiguration boolLiteral intLiteral ?env3 None = Inr r
     \<and> IP r = Some ip \<and> MaxRequestsPerSecond ip = 100"
    using ip_max_requests_from_environment [OF r3 absent] r3 given3 by blast
  show ?thesis
    using first second third by (intro conjI)
qed

text \<open>
  Claim C7, as the code has it. After a resolution that returns, no entry of the
  custom-token map is absent. A key the caller supplied with an absent value maps to the
  resolved Token policy when neither \<open>RATE_LIMITER_TOKEN_<key>_MAX_REQUESTS\<close> nor
  \<open>RATE_LIMITER_TOKEN_<key>_BLOCK_TIME\<close> is set in the environment; the witness is the
  entry \<open>ABC\<close> with the Token policy resolved to 200 and 500. Without that condition
  the completion does not survive: the second loop of \<open>configureCustomTokens\<close> rebuilds
  the entry of every discovered identifier. The counterexample is the caller entry
  \<open>ABC\<close> with an absent value under \<open>RATE_LIMITER_TOKEN_ABC_MAX_REQUESTS=50\<close>, which
  resolves to 50 and 500 while the Token policy is 200 and 500.
\<close>

theorem absent_custom_entry_completed:
  assumes "setConfiguration parseBool parseInt env config = Inr r"
  shows "\<exists>customTokens token. CustomTokens r = Some customTokens \<and> Token r = Some token
           \<and> (\<forall>key. entries customTokens key \<noteq> Some None)
           \<and> (\<forall>c m key. config = Some c \<and> CustomTokens c = Some (GoMap m) \<and> m key = Some None
                  \<and> LookupEnv env (''RATE_LIMITER_TOKEN_'' @ key @ ''_MAX_REQUESTS'') = None
                  \<and> LookupEnv env (''RATE_LIMITER_TOKEN_'' @ key @ ''_BLOCK_TIME'') = None
                  \<longrightarrow> entries customTokens key = Some (Some token))"
proof -
  define c where "c = (case config of None \<Rightarrow> getDefaultConfiguration | Some c \<Rightarrow> c)"
  define token where "token = resolvedToken parseInt env c"
  have tok: "Token r = Some token"
    using setConfiguration_Inr_fields(2) [OF assms c_def] by (simp add: token_def)
  obtain customTokens
    where res: "resolvedCustomTokens parseInt env (CustomTokens c) token = Inr customTokens"
      and cus: "CustomTokens r = Some customTokens"
    using setConfiguration_Inr_fields(3) [OF assms c_def] by (auto simp: token_def)
  note at = resolvedCustomTokens_entries [OF res]
  have present: "\<forall>key. entries customTokens key \<noteq> Some None"
    by (auto simp: at split: option.splits)
  have completed: "entries customTokens key = Some (Some token)"
    if caller: "config = Some c'" "CustomTokens c' = Some (GoMap m)" "m key = Some None"
      and unset: "LookupEnv env (''RATE_LIMITER_TOKEN_'' @ key @ ''_MAX_REQUESTS'') = None"
        "LookupEnv env (''RATE_LIMITER_TOKEN_'' @ key @ ''_BLOCK_TIME'') = None"
    for c' m key
  proof -
    have "customTokenRate parseInt env token key = token"
      using unset by (simp add: customTokenRate_def overrideRate_def envOr_def getInt64Env_def)
    moreover have "CustomTokens c = Some (GoMap m)"
      using caller by (simp add: c_def)
    ultimately show ?thesis
      using caller by (simp add: at)
  qed
  show ?thesis
    using tok cus present completed by blast
qed

theorem absent_custom_entry_completed_witness:
  "\<exists>r customTokens.
     setConfiguration boolLiteral intLiteral [''HOME=/root'', ''RATE_LIMITER_TOKEN_XYZ_BLOCK_TIME=999'']
       (Some \<lparr> IP = None, Token = None, CustomTokens = Some (GoMap [''ABC'' \<mapsto> None]),
               StorageAdapter = None, ResponseWriter = None, Debug = False,
               DisableEnvs = False \<rparr>) = Inr r
     \<and> Token r = Some \<lparr> MaxRequestsPerSecond = 200, BlockTimeMilliseconds = 500 \<rparr>
     \<and> CustomTokens r = Some customTokens
     \<and> entries customTokens ''ABC''
         = Some (Some \<lparr> MaxRequestsPerSecond = 200, BlockTimeMilliseconds = 500 \<rparr>)"
proof -
  let ?env = "[''HOME=/root'', ''RATE_LIMITER_TOKEN_XYZ_BLOCK_TIME=999'']"
  let ?c = "\<lparr> IP = None, Token = None, CustomTokens = Some (GoMap [''ABC'' \<mapsto> None]),
               StorageAdapter = None, ResponseWriter = None, Debug = False,
               DisableEnvs = False \<rparr>"
  have "\<exists>r. setConfiguration boolLiteral intLiteral ?env (Some ?c) = Inr r"
    by (simp add: setConfiguration_returns_iff getBoolEnv_def envUseRedis_def envPairKey_def)
  then obtain r where r: "setConfiguration boolLiteral intLiteral ?env (Some ?c) = Inr r" ..
  have token: "Token r = Some \<lparr> MaxRequestsPerSecond = 200, BlockTimeMilliseconds = 500 \<rparr>"
    using setConfiguration_Inr_fields(2) [OF r refl]
    by (simp add: resolvedToken_def resolvedRate_def overrideRate_def envOr_def getInt64Env_def
          envKeyTokenMaxRequestsPerSecond_def envKeyTokenBlockTimeMilliseconds_def envPairKey_def)
  have absent: "[''ABC'' \<mapsto> (None :: RateLimiterRateConfig option)] ''ABC'' = Some None"
    by simp
  have unsetMax: "LookupEnv ?env (''RATE_LIMITER_TOKEN_'' @ ''ABC'' @ ''_MAX_REQUESTS'') = None"
    and unsetBlock: "LookupEnv ?env (''RATE_LIMITER_TOKEN_'' @ ''ABC'' @ ''_BLOCK_TIME'') = None"
    by (simp_all add: envPairKey_def)
  from absent_custom_entry_completed [OF r]
  obtain customTokens tok where
    ct: "CustomTokens r = Some customTokens" and tok: "Token r = Some tok"
    and completed: "\<forall>c m key. Some ?c = Some c \<and> CustomTokens c = Some (GoMap m) \<and> m key = Some None
                  \<and> LookupEnv ?env (''RATE_LIMITER_TOKEN_'' @ key @ ''_MAX_REQUESTS'') = None
                  \<and> LookupEnv ?env (''RATE_LIMITER_TOKEN_'' @ key @ ''_BLOCK_TIME'') = None
                  \<longrightarrow> entries customTokens key = Some (Some tok)"
    by (elim exE conjE)
  have "entries customTokens ''ABC'' = Some (Some tok)"
    using completed [rule_format, of ?c "[''ABC'' \<mapsto> None]" "''ABC''"] absent unsetMax unsetBlock
    by simp
  then show ?thesis
    using r ct tok token by (intro exI [of _ r] exI [of _ customTokens]) simp
qed

theorem absent_custom_entry_completed_counterexample:
  "setConfiguration boolLiteral intLiteral [''RATE_LIMITER_TOKEN_ABC_MAX_REQUESTS=50'']
     (Some \<lparr> IP = None, Token = None, CustomTokens = Some (GoMap [''ABC'' \<mapsto> None]),
             StorageAdapter = None, ResponseWriter = None, Debug = False,
             DisableEnvs = False \<rparr>)
   = Inr \<lparr> IP = Some \<lparr> MaxRequestsPerSecond = 100, BlockTimeMilliseconds = 1000 \<rparr>,
           Token = Some \<lparr> MaxRequestsPerSecond = 200, BlockTimeMilliseconds = 500 \<rparr>,
           CustomTokens = Some (GoMap [''ABC'' \<mapsto>
             Some \<lparr> MaxRequestsPerSecond = 50, BlockTimeMilliseconds = 500 \<rparr>]),
           StorageAdapter = Some NewRateLimitMemoryStorageAdapter,
           ResponseWriter = Some NewRateLimiterDefaultResponseWriter,
           Debug = False, DisableEnvs = False \<rparr>"
proof -
  have fifty: "intLiteral ''50'' = Some 50"
    by (simp add: intLiteral_def digitValue_def)
  show ?thesis
    by (simp add: setConfiguration_resolved resolved_def resolvedCustomTokens_def
          resolvedStorageAdapter_def resolvedIP_def resolvedToken_def resolvedRate_def
          resolvedDebug_def customTokenRate_def overrideRate_def envOr_def
          getBoolEnv_def getInt64Env_def envUseRedis_def envKeyDebug_def
          envKeyIPMaxRequestsPerSecond_def envKeyIPBlockTimeMilliseconds_def
          envKeyTokenMaxRequestsPerSecond_def envKeyTokenBlockTimeMilliseconds_def
          envPairKey_def tokensABC fifty fun_eq_iff)
qed

text \<open>
  Claim C8. Whenever the resolution call returns, for any caller configuration (also the
  absent one) and any environment, the IP policy, the Token policy, the custom-token map,
  the storage adapter and the response writer of the result are all present.
\<close>

theorem resolved_fields_present:
  assumes "setConfiguration parseBool parseInt env config = Inr r"
  shows "IP r \<noteq> None \<and> Token r \<noteq> None \<and> CustomTokens r \<noteq> None
           \<and> StorageAdapter r \<noteq> None \<and> ResponseWriter r \<noteq> None"
proof -
  define c where "c = (case config of None \<Rightarrow> getDefaultConfiguration | Some c \<Rightarrow> c)"
  have r: "resolved parseBool parseInt env c = Inr r"
    using assms by (simp add: setConfiguration_resolved c_def)
  show ?thesis
    using resolved_Inr_fields [OF r] by auto
qed

theorem resolved_fields_present_witness:
  "\<exists>r. setConfiguration boolLiteral intLiteral
     [''HOME=/root'', ''RATE_LIMITER_TOKEN_ABC_MAX_REQUESTS=50''] None = Inr r
     \<and> IP r \<noteq> None \<and> Token r \<noteq> None \<and> CustomTokens r \<noteq> None
           \<and> StorageAdapter r \<noteq> None \<and> ResponseWriter r \<noteq> None"
proof -
  let ?env = "[''HOME=/root'', ''RATE_LIMITER_TOKEN_ABC_MAX_REQUESTS=50'']"
  have "\<exists>r. setConfiguration boolLiteral intLiteral ?env None = Inr r"
    by (simp add: setConfiguration_returns_iff getBoolEnv_def envUseRedis_def envPairKey_def)
  then obtain r where r: "setConfiguration boolLiteral intLiteral ?env None = Inr r" ..
  show ?thesis
    using resolved_fields_present [OF r] r by blast
qed

text \<open>
  Claim C9. Resolution is idempotent: resolving the result of a resolution that returned,
  under the same environment, returns again, with the same IP policy, Token policy,
  custom-token map and debug flag.
\<close>

theorem resolution_idempotent:
  assumes "setConfiguration parseBool parseInt env config = Inr r"
  shows "\<exists>r'. setConfiguration parseBool parseInt env (Some r) = Inr r'
           \<and> IP r' = IP r \<and> Token r' = Token r \<and> CustomTokens r' = CustomTokens r
           \<and> Debug r' = Debug r"
proof -
  have "resolved parseBool parseInt env
          (case config of None \<Rightarrow> getDefaultConfiguration | Some c \<Rightarrow> c) = Inr r"
    using assms by (simp add: setConfiguration_resolved)
  then have "setConfiguration parseBool parseInt env (Some r) = Inr r"
    by (simp add: setConfiguration_resolved resolved_idem)
  then show ?thesis
    by simp
qed

theorem resolution_idempotent_witness:
  "\<exists>r r'. setConfiguration boolLiteral intLiteral
       [''RATE_LIMITER_DEBUG=true'', ''RATE_LIMITER_TOKEN_MAX_REQUESTS=7'',
        ''RATE_LIMITER_TOKEN_ABC_BLOCK_TIME=30'']
       (Some \<lparr> IP = Some \<lparr> MaxRequestsPerSecond = 1, BlockTimeMilliseconds = 2 \<rparr>,
               Token = None, CustomTokens = Some (GoMap [''K'' \<mapsto> None]),
               StorageAdapter = Some (CallerStorageAdapter 0), ResponseWriter = None,
               Debug = False, DisableEnvs = False \<rparr>) = Inr r
     \<and> setConfiguration boolLiteral intLiteral
       [''RATE_LIMITER_DEBUG=true'', ''RATE_LIMITER_TOKEN_MAX_REQUESTS=7'',
        ''RATE_LIMITER_TOKEN_ABC_BLOCK_TIME=30''] (Some r) = Inr r'
     \<and> IP r' = IP r \<and> Token r' = Token r \<and> CustomTokens r' = CustomTokens r
     \<and> Debug r' = Debug r"
proof -
  let ?env = "[''RATE_LIMITER_DEBUG=true'', ''RATE_LIMITER_TOKEN_MAX_REQUESTS=7'',
        ''RATE_LIMITER_TOKEN_ABC_BLOCK_TIME=30'']"
  let ?config = "Some \<lparr> IP = Some \<lparr> MaxRequestsPerSecond = 1, BlockTimeMilliseconds = 2 \<rparr>,
               Token = None, CustomTokens = Some (GoMap [''K'' \<mapsto> None]),
               StorageAdapter = Some (CallerStorageAdapter 0), ResponseWriter = None,
               Debug = False, DisableEnvs = False \<rparr>"
  have "\<exists>r. setConfiguration boolLiteral intLiteral ?env ?config = Inr r"
    by (simp add: setConfiguration_returns_iff getBoolEnv_def envUseRedis_def envPairKey_def)
  then obtain r where r: "setConfiguration boolLiteral intLiteral ?env ?config = Inr r" ..
  show ?thesis
    using resolution_idempotent [OF r] r by blast
qed

text \<open>
  Claim C10. On a configuration whose custom-token map is present,
  \<open>GetRateLimiterRateConfigForToken\<close> returns the map's entry and \<open>true\<close> for a token
  that is a key of the map, and the configuration's Token policy and \<open>false\<close> for any
  other token; the configuration is handed back as it was.
\<close>

theorem GetRateLimiterRateConfigForToken_lookup:
  assumes "CustomTokens c = Some m"
  shows "(token \<in> dom (entries m) \<longrightarrow>
            GetRateLimiterRateConfigForToken c token = Inr ((the (entries m token), True), c))
         \<and> (token \<notin> dom (entries m) \<longrightarrow>
            GetRateLimiterRateConfigForToken c token = Inr ((Token c, False), c))"
  using assms
  by (cases "entries m token") (auto simp: GetRateLimiterRateConfigForToken_def)

theorem GetRateLimiterRateConfigForToken_lookup_witness:
  "GetRateLimiterRateConfigForToken
     (getDefaultConfiguration\<lparr>CustomTokens := Some (GoMap [''ABC'' \<mapsto>
        Some \<lparr> MaxRequestsPerSecond = 50, BlockTimeMilliseconds = 999 \<rparr>])\<rparr>) ''ABC''
     = Inr ((Some \<lparr> MaxRequestsPerSecond = 50, BlockTimeMilliseconds = 999 \<rparr>, True),
            getDefaultConfiguration\<lparr>CustomTokens := Some (GoMap [''ABC'' \<mapsto>
              Some \<lparr> MaxRequestsPerSecond = 50, BlockTimeMilliseconds = 999 \<rparr>])\<rparr>)
   \<and> GetRateLimiterRateConfigForToken
     (getDefaultConfiguration\<lparr>CustomTokens := Some (GoMap [''ABC'' \<mapsto>
        Some \<lparr> MaxRequestsPerSecond = 50, BlockTimeMilliseconds = 999 \<rparr>])\<rparr>) ''XYZ''
     = Inr ((Some \<lparr> MaxRequestsPerSecond = 200, BlockTimeMilliseconds = 500 \<rparr>, False),
            getDefaultConfiguration\<lparr>CustomTokens := Some (GoMap [''ABC'' \<mapsto>
              Some \<lparr> MaxRequestsPerSecond = 50, BlockTimeMilliseconds = 999 \<rparr>])\<rparr>)"
proof -
  let ?m = "GoMap [''ABC'' \<mapsto> Some \<lparr> MaxRequestsPerSecond = 50, BlockTimeMilliseconds = 999 \<rparr>]"
  let ?c = "getDefaultConfiguration\<lparr>CustomTokens := Some ?m\<rparr>"
  have present: "CustomTokens ?c = Some ?m"
    by simp
  show ?thesis
    using GetRateLimiterRateConfigForToken_lookup [OF present, of "''ABC''"]
      GetRateLimiterRateConfigForToken_lookup [OF present, of "''XYZ''"]
    by (simp add: getDefaultConfiguration_def)
qed

end
